theory Spec2Isabelle
  imports Complex_Main "HOL-Library.Char_ord" "HOL-Library.List_Lexorder"
begin

section \<open>JavaScript values\<close>

text \<open>
  The dashboard computes on JavaScript numbers. A number is a real (the value of a
  double) or one of the three special values. An arithmetic operation of the language
  gives the exact result of the operation, rounded to a number. The functions of this
  section give the exact results, with the language's rules for the special values (a
  quotient by zero is an infinity, or NaN for \<open>0 / 0\<close>; NaN is absorbing;
  \<open>Infinity - Infinity\<close> is NaN); the rounding belongs to the runtime, below. The sign
  of zero is not modelled.
\<close>

datatype jsnum = Num real | PInf | NInf | NaN

fun isNaN :: "jsnum \<Rightarrow> bool" where
  "isNaN NaN = True"
| "isNaN _ = False"

fun js_neg :: "jsnum \<Rightarrow> jsnum" where
  "js_neg (Num a) = Num (- a)"
| "js_neg PInf = NInf"
| "js_neg NInf = PInf"
| "js_neg NaN = NaN"

fun js_add :: "jsnum \<Rightarrow> jsnum \<Rightarrow> jsnum" where
  "js_add (Num a) (Num b) = Num (a + b)"
| "js_add NaN _ = NaN"
| "js_add _ NaN = NaN"
| "js_add PInf NInf = NaN"
| "js_add NInf PInf = NaN"
| "js_add PInf _ = PInf"
| "js_add _ PInf = PInf"
| "js_add NInf _ = NInf"
| "js_add _ NInf = NInf"

definition js_sub :: "jsnum \<Rightarrow> jsnum \<Rightarrow> jsnum" where
  "js_sub x y = js_add x (js_neg y)"

text \<open>The sign of a number that is not NaN, and the infinity of a given sign
  (NaN for sign zero, as in \<open>Infinity * 0\<close>).\<close>

fun sign_of :: "jsnum \<Rightarrow> real" where
  "sign_of (Num a) = sgn a"
| "sign_of PInf = 1"
| "sign_of NInf = - 1"
| "sign_of NaN = 0"

definition inf_of_sign :: "real \<Rightarrow> jsnum" where
  "inf_of_sign s = (if s = 0 then NaN else if 0 < s then PInf else NInf)"

fun js_mul :: "jsnum \<Rightarrow> jsnum \<Rightarrow> jsnum" where
  "js_mul (Num a) (Num b) = Num (a * b)"
| "js_mul NaN _ = NaN"
| "js_mul _ NaN = NaN"
| "js_mul x y = inf_of_sign (sign_of x * sign_of y)"

fun js_div :: "jsnum \<Rightarrow> jsnum \<Rightarrow> jsnum" where
  "js_div (Num a) (Num b) = (if b = 0 then inf_of_sign a else Num (a / b))"
| "js_div NaN _ = NaN"
| "js_div _ NaN = NaN"
| "js_div (Num a) _ = Num 0"
| "js_div x (Num b) = (if b < 0 then js_neg x else x)"
| "js_div _ _ = NaN"

fun js_sqrt :: "jsnum \<Rightarrow> jsnum" where
  "js_sqrt (Num a) = (if a < 0 then NaN else Num (sqrt a))"
| "js_sqrt PInf = PInf"
| "js_sqrt NInf = NaN"
| "js_sqrt NaN = NaN"

text \<open>Truthiness of a number: \<open>0\<close> and NaN are falsy.\<close>

fun num_truthy :: "jsnum \<Rightarrow> bool" where
  "num_truthy (Num a) = (a \<noteq> 0)"
| "num_truthy NaN = False"
| "num_truthy _ = True"

text \<open>\<open>xs[i]\<close> on an array of numbers, used as a number: out of range it is
  \<open>undefined\<close>, which arithmetic converts to NaN.\<close>

definition num_at :: "jsnum list \<Rightarrow> nat \<Rightarrow> jsnum" where
  "num_at xs i = (if i < length xs then xs ! i else NaN)"

text \<open>A field of a parsed CSV row: absent, a string, or a number.\<close>

datatype jsval = Undefined | Str string | Number jsnum

text \<open>A row (the code's \<open>any\<close> objects) maps column names to values.\<close>

type_synonym row = "string \<Rightarrow> jsval"

fun truthy :: "jsval \<Rightarrow> bool" where
  "truthy Undefined = False"
| "truthy (Str s) = (s \<noteq> [])"
| "truthy (Number n) = num_truthy n"

text \<open>\<open>v || 0\<close> on a number.\<close>

definition num_or_zero :: "jsnum \<Rightarrow> jsnum" where
  "num_or_zero n = (if num_truthy n then n else Num 0)"

subsection \<open>The runtime\<close>

text \<open>
  What the code calls but does not define: the language's built-in conversions, the
  \<open>Date\<close> object, the collation behind \<open>localeCompare\<close> and the date library. They are
  parameters of the model. The type \<open>'d\<close> is that of \<open>Date\<close> objects; \<open>getFullYear\<close> and
  \<open>getMonth\<close> answer \<open>None\<close> where the runtime answers NaN (an invalid date);
  \<open>parseISO\<close> and \<open>format\<close> answer \<open>None\<close> where the date library throws (\<open>format\<close> a
  \<open>RangeError\<close> on an invalid date; \<open>parseISO\<close>, in the versions of the library that
  check their argument, a \<open>TypeError\<close> on an argument that is not a string). \<open>nearest\<close>
  rounds the exact result of an arithmetic operation to a number (in an engine: to the
  nearest double, or to an infinity), and \<open>mathSqrt\<close> is \<open>Math.sqrt\<close>.
\<close>

record 'd runtime =
  newDate :: "jsval \<Rightarrow> 'd"
  dateFromParts :: "int \<Rightarrow> int \<Rightarrow> int \<Rightarrow> 'd"
  getFullYear :: "'d \<Rightarrow> int option"
  getMonth :: "'d \<Rightarrow> int option"
  toLocaleDateString :: "'d \<Rightarrow> string"
  parseISO :: "jsval \<Rightarrow> 'd option"
  format :: "'d \<Rightarrow> string \<Rightarrow> string option"
  parseFloatStr :: "string \<Rightarrow> jsnum"
  stringToNumber :: "string \<Rightarrow> jsnum"
  numberToString :: "jsnum \<Rightarrow> string"
  toFixed :: "jsnum \<Rightarrow> nat \<Rightarrow> string"
  toLocaleString :: "nat \<Rightarrow> string"
  localeCompare :: "string \<Rightarrow> string \<Rightarrow> int"
  toLowerCase :: "string \<Rightarrow> string"
  nearest :: "real \<Rightarrow> jsnum"
  mathSqrt :: "jsnum \<Rightarrow> jsnum"

text \<open>The operators \<open>+\<close>, \<open>-\<close>, \<open>*\<close> and \<open>/\<close> on numbers: the exact result, rounded
  when it is finite.\<close>

fun rounded :: "'d runtime \<Rightarrow> jsnum \<Rightarrow> jsnum" where
  "rounded rt (Num a) = nearest rt a"
| "rounded rt x = x"

definition num_add :: "'d runtime \<Rightarrow> jsnum \<Rightarrow> jsnum \<Rightarrow> jsnum" where
  "num_add rt a b = rounded rt (js_add a b)"

definition num_sub :: "'d runtime \<Rightarrow> jsnum \<Rightarrow> jsnum \<Rightarrow> jsnum" where
  "num_sub rt a b = rounded rt (js_sub a b)"

definition num_mul :: "'d runtime \<Rightarrow> jsnum \<Rightarrow> jsnum \<Rightarrow> jsnum" where
  "num_mul rt a b = rounded rt (js_mul a b)"

definition num_div :: "'d runtime \<Rightarrow> jsnum \<Rightarrow> jsnum \<Rightarrow> jsnum" where
  "num_div rt a b = rounded rt (js_div a b)"

text \<open>\<open>parseFloat(v)\<close>: a number is converted to a string and read back, which gives
  the number itself; \<open>undefined\<close> reads as NaN.\<close>

fun parseFloat :: "'d runtime \<Rightarrow> jsval \<Rightarrow> jsnum" where
  "parseFloat rt (Number n) = n"
| "parseFloat rt (Str s) = parseFloatStr rt s"
| "parseFloat rt Undefined = NaN"

text \<open>\<open>ToNumber\<close> and \<open>ToString\<close> on a field value.\<close>

fun to_number :: "'d runtime \<Rightarrow> jsval \<Rightarrow> jsnum" where
  "to_number rt (Number n) = n"
| "to_number rt (Str s) = stringToNumber rt s"
| "to_number rt Undefined = NaN"

fun to_string :: "'d runtime \<Rightarrow> jsval \<Rightarrow> string" where
  "to_string rt (Str s) = s"
| "to_string rt (Number n) = numberToString rt n"
| "to_string rt Undefined = ''undefined''"

fun is_string :: "jsval \<Rightarrow> bool" where
  "is_string (Str s) = True"
| "is_string _ = False"

text \<open>The operator \<open>+\<close>: concatenation as soon as one operand is a string, addition of
  numbers otherwise.\<close>

definition js_plus :: "'d runtime \<Rightarrow> jsval \<Rightarrow> jsval \<Rightarrow> jsval" where
  "js_plus rt a b =
     (if is_string a \<or> is_string b then Str (to_string rt a @ to_string rt b)
      else Number (num_add rt (to_number rt a) (to_number rt b)))"

text \<open>\<open>v || 0\<close> and \<open>v || 50\<close> on a field value.\<close>

definition or_default :: "jsval \<Rightarrow> real \<Rightarrow> jsval" where
  "or_default v d = (if truthy v then v else Number (Num d))"

text \<open>\<open>a < b\<close> and \<open>a > b\<close> on numbers: false as soon as one side is NaN.\<close>

fun js_less :: "jsnum \<Rightarrow> jsnum \<Rightarrow> bool" where
  "js_less (Num a) (Num b) = (a < b)"
| "js_less NaN _ = False"
| "js_less _ NaN = False"
| "js_less NInf NInf = False"
| "js_less NInf _ = True"
| "js_less PInf _ = False"
| "js_less _ PInf = True"
| "js_less _ NInf = False"

definition js_greater :: "jsnum \<Rightarrow> jsnum \<Rightarrow> bool" where
  "js_greater a b = js_less b a"

text \<open>\<open>Math.round\<close>, \<open>Math.ceil\<close> and \<open>Math.max(0, x)\<close>.\<close>

fun math_round :: "jsnum \<Rightarrow> jsnum" where
  "math_round (Num a) = Num (of_int \<lfloor>a + 1 / 2\<rfloor>)"
| "math_round x = x"

fun math_ceil :: "jsnum \<Rightarrow> jsnum" where
  "math_ceil (Num a) = Num (of_int \<lceil>a\<rceil>)"
| "math_ceil x = x"

fun math_max0 :: "jsnum \<Rightarrow> jsnum" where
  "math_max0 (Num a) = Num (max 0 a)"
| "math_max0 PInf = PInf"
| "math_max0 NInf = Num 0"
| "math_max0 NaN = NaN"

text \<open>\<open>data.slice(-30)\<close> and \<open>data.slice(-60, -30)\<close>.\<close>

definition slice_last :: "nat \<Rightarrow> 'a list \<Rightarrow> 'a list" where
  "slice_last k xs = drop (length xs - k) xs"

definition slice_before_last :: "nat \<Rightarrow> nat \<Rightarrow> 'a list \<Rightarrow> 'a list" where
  "slice_before_last k j xs = drop (length xs - k) (take (length xs - j) xs)"

text \<open>Decimal digits of an integer, as template literals and \<open>String(n)\<close> print it.\<close>

definition digit_char :: "nat \<Rightarrow> char" where
  "digit_char n = ''0123456789'' ! (n mod 10)"

function show_nat :: "nat \<Rightarrow> string" where
  "show_nat n = (if n < 10 then [digit_char n] else show_nat (n div 10) @ [digit_char n])"
  by pat_completeness auto
termination
  by (relation "measure (\<lambda>n. n)") auto

declare show_nat.simps [simp del]

definition show_int :: "int \<Rightarrow> string" where
  "show_int i = (if i < 0 then CHR ''-'' # show_nat (nat (- i)) else show_nat (nat i))"

definition show_int_or_NaN :: "int option \<Rightarrow> string" where
  "show_int_or_NaN v = (case v of None \<Rightarrow> ''NaN'' | Some i \<Rightarrow> show_int i)"

text \<open>\<open>s.padStart(2, '0')\<close>.\<close>

definition padStart2 :: "string \<Rightarrow> string" where
  "padStart2 s = (if length s < 2 then replicate (2 - length s) CHR ''0'' @ s else s)"

text \<open>\<open>Array.prototype.sort\<close> with a comparator: a stable sort. It is modelled as the
  stable insertion sort driven by the sign of the comparator.\<close>

fun insert_by :: "('a \<Rightarrow> 'a \<Rightarrow> int) \<Rightarrow> 'a \<Rightarrow> 'a list \<Rightarrow> 'a list" where
  "insert_by cmp x [] = [x]"
| "insert_by cmp x (y # ys) = (if cmp x y \<le> 0 then x # y # ys else y # insert_by cmp x ys)"

definition js_sort :: "('a \<Rightarrow> 'a \<Rightarrow> int) \<Rightarrow> 'a list \<Rightarrow> 'a list" where
  "js_sort cmp xs = foldr (insert_by cmp) xs []"

text \<open>A \<open>Map\<close> keeps its keys in insertion order: an association list.
  \<open>map_set\<close> replaces the value of a key in place and appends a new key at the end.\<close>

fun map_set :: "'k \<Rightarrow> 'v \<Rightarrow> ('k \<times> 'v) list \<Rightarrow> ('k \<times> 'v) list" where
  "map_set k v [] = [(k, v)]"
| "map_set k v (p # ps) = (if fst p = k then (k, v) # ps else p # map_set k v ps)"

section \<open>Monthly aggregation (ResourcePredictionChart)\<close>

text \<open>The object kept per month in \<open>monthlyData\<close>, and the object returned per month.\<close>

record 'd month_data =
  month :: string
  date :: "'d"
  cpu_usage :: "jsnum list"
  memory_usage :: "jsnum list"
  network_traffic :: "jsnum list"
  power_consumption :: "jsnum list"
  cpu_growth :: "jsnum list"
  memory_growth :: "jsnum list"
  network_growth :: "jsnum list"

record monthly =
  month :: string
  cpu_avg :: jsnum
  memory_avg :: jsnum
  network_avg :: jsnum
  power_avg :: jsnum
  cpu_growth :: jsnum
  memory_growth :: jsnum
  network_growth :: jsnum

text \<open>The template literal that builds the key,
  \<open>`${date.getFullYear()}-${String(date.getMonth() + 1).padStart(2, '0')}`\<close>.\<close>

definition monthKey_of :: "'d runtime \<Rightarrow> 'd \<Rightarrow> string" where
  "monthKey_of rt d =
     show_int_or_NaN (getFullYear rt d) @ ''-'' @
     padStart2 (show_int_or_NaN (map_option (\<lambda>m. m + 1) (getMonth rt d)))"

text \<open>\<open>if (v !== undefined) xs.push(parseFloat(v) || 0)\<close>.\<close>

definition push_value :: "'d runtime \<Rightarrow> jsval \<Rightarrow> jsnum list \<Rightarrow> jsnum list" where
  "push_value rt v xs = (if v \<noteq> Undefined then xs @ [num_or_zero (parseFloat rt v)] else xs)"

text \<open>\<open>xs.reduce((sum, val) => sum + val, 0) / xs.length || 0\<close>.\<close>

definition average :: "'d runtime \<Rightarrow> jsnum list \<Rightarrow> jsnum" where
  "average rt xs =
     num_or_zero (num_div rt (foldl (num_add rt) (Num 0) xs) (Num (real (length xs))))"

text \<open>The body of \<open>data.forEach\<close>: one row is added to the map.\<close>

definition monthly_step ::
  "'d runtime \<Rightarrow> (string \<times> 'd month_data) list \<Rightarrow> row \<Rightarrow> (string \<times> 'd month_data) list" where
  "monthly_step rt monthlyData item =
     (if \<not> truthy (item ''timestamp'') then monthlyData
      else
        (let date = newDate rt (item ''timestamp'');
             monthKey = monthKey_of rt date;
             monthData =
               (case map_of monthlyData monthKey of
                  None \<Rightarrow> \<lparr> month_data.month = monthKey, date = date, cpu_usage = [],
                            memory_usage = [], network_traffic = [], power_consumption = [],
                            cpu_growth = [], memory_growth = [], network_growth = [] \<rparr>
                | Some monthData \<Rightarrow> monthData)
         in map_set monthKey
              (monthData
                 \<lparr> cpu_usage := push_value rt (item ''cpu_usage'') (cpu_usage monthData),
                   memory_usage := push_value rt (item ''memory_usage'') (memory_usage monthData),
                   network_traffic :=
                     push_value rt (item ''network_traffic'') (network_traffic monthData),
                   power_consumption :=
                     push_value rt (item ''power_consumption'') (power_consumption monthData),
                   month_data.cpu_growth :=
                     push_value rt (item ''cpu_usage_growth_pct'') (month_data.cpu_growth monthData),
                   month_data.memory_growth :=
                     push_value rt (item ''memory_usage_growth_pct'')
                       (month_data.memory_growth monthData),
                   month_data.network_growth :=
                     push_value rt (item ''network_traffic_growth_pct'')
                       (month_data.network_growth monthData) \<rparr>)
              monthlyData))"

text \<open>The object literal computed from one month's arrays.\<close>

definition monthly_averages :: "'d runtime \<Rightarrow> 'd month_data \<Rightarrow> monthly" where
  "monthly_averages rt monthData =
     \<lparr> monthly.month = month_data.month monthData,
       cpu_avg = average rt (cpu_usage monthData),
       memory_avg = average rt (memory_usage monthData),
       network_avg = average rt (network_traffic monthData),
       power_avg = average rt (power_consumption monthData),
       cpu_growth = average rt (month_data.cpu_growth monthData),
       memory_growth = average rt (month_data.memory_growth monthData),
       network_growth = average rt (month_data.network_growth monthData) \<rparr>"

definition processedData_monthly :: "'d runtime \<Rightarrow> row list \<Rightarrow> monthly list" where
  "processedData_monthly rt data =
     (if data = [] then []
      else
        (let monthlyData = foldl (monthly_step rt) [] data
         in js_sort (\<lambda>a b. localeCompare rt (monthly.month a) (monthly.month b))
              (map (\<lambda>(k, monthData). monthly_averages rt monthData) monthlyData)))"

section \<open>Daily chart data (ResourcePredictionChart)\<close>

text \<open>What the code can throw: a \<open>TypeError\<close> when a method is called on a value that
  does not have it, and the date library's \<open>RangeError\<close>.\<close>

datatype error = TypeError | RangeError

definition and_then :: "error + 'a \<Rightarrow> ('a \<Rightarrow> error + 'b) \<Rightarrow> error + 'b" where
  "and_then r f = (case r of Inl e \<Rightarrow> Inl e | Inr a \<Rightarrow> f a)"

text \<open>The results of a \<open>map\<close> callback that may throw: the first exception ends the
  whole \<open>map\<close>.\<close>

fun collect :: "(error + 'a) list \<Rightarrow> error + 'a list" where
  "collect [] = Inr []"
| "collect (r # rs) = and_then r (\<lambda>a. and_then (collect rs) (\<lambda>as. Inr (a # as)))"

text \<open>
  \<open>parseFloat(x.toFixed(2))\<close> on a number: \<open>toFixed\<close> prints the number rounded to two
  decimals, the magnitude rounded half up, and \<open>parseFloat\<close> reads the number nearest
  to what is printed; a number of magnitude \<open>10\<^sup>2\<^sup>1\<close> or more and the special values
  print and read back unchanged.
\<close>

fun round2 :: "'d runtime \<Rightarrow> jsnum \<Rightarrow> jsnum" where
  "round2 rt (Num a) =
     (if 10 ^ 21 \<le> \<bar>a\<bar> then Num a
      else nearest rt (sgn a * of_int \<lfloor>\<bar>a\<bar> * 100 + 1 / 2\<rfloor> / 100))"
| "round2 rt x = x"

text \<open>\<open>parseFloat(v.toFixed(2))\<close> on a field value: only numbers have \<open>toFixed\<close>.\<close>

fun fixed2 :: "'d runtime \<Rightarrow> jsval \<Rightarrow> error + jsnum" where
  "fixed2 rt (Number n) = Inr (round2 rt n)"
| "fixed2 rt _ = Inl TypeError"

text \<open>\<open>prev > 0 ? ((current - prev) / prev) * 100 : 0\<close>, on the values left by
  \<open>|| 0\<close>.\<close>

definition growth :: "'d runtime \<Rightarrow> jsval \<Rightarrow> jsval \<Rightarrow> jsnum" where
  "growth rt prev current =
     (if js_greater (to_number rt prev) (Num 0)
      then num_mul rt (num_div rt (num_sub rt (to_number rt current) (to_number rt prev))
                                   (to_number rt prev))
                      (Num 100)
      else Num 0)"

record 'd daily =
  date :: string
  fullDate :: "'d"
  cpu_avg :: jsnum
  memory_avg :: jsnum
  network_avg :: jsnum
  power_avg :: jsnum
  cpu_growth :: jsnum
  memory_growth :: jsnum
  network_growth :: jsnum

text \<open>The callback of \<open>data.map\<close>, on the row at position \<open>index\<close>.\<close>

definition daily_row :: "'d runtime \<Rightarrow> row list \<Rightarrow> nat \<Rightarrow> row \<Rightarrow> error + 'd daily" where
  "daily_row rt data index item =
     (let timestamp = (if truthy (item ''timestamp'') then newDate rt (item ''timestamp'')
                       else dateFromParts rt 2025 0 (int index + 1));
          prevItem = data ! (index - 1);
          cpuGrowth = (if 0 < index
                       then growth rt (or_default (prevItem ''cpu_usage'') 0)
                                      (or_default (item ''cpu_usage'') 0)
                       else Num 0);
          memoryGrowth = (if 0 < index
                          then growth rt (or_default (prevItem ''memory_usage'') 0)
                                         (or_default (item ''memory_usage'') 0)
                          else Num 0);
          networkGrowth = (if 0 < index
                           then growth rt (or_default (prevItem ''network_traffic'') 0)
                                          (or_default (item ''network_traffic'') 0)
                           else Num 0)
      in and_then (fixed2 rt (or_default (item ''cpu_usage'') 0)) (\<lambda>cpu.
         and_then (fixed2 rt (or_default (item ''memory_usage'') 0)) (\<lambda>memory.
         and_then (fixed2 rt (or_default (item ''network_traffic'') 0)) (\<lambda>network.
         and_then (fixed2 rt (or_default (item ''power_consumption'') 0)) (\<lambda>power.
           Inr \<lparr> daily.date = toLocaleDateString rt timestamp,
                 fullDate = timestamp,
                 cpu_avg = cpu, memory_avg = memory, network_avg = network, power_avg = power,
                 cpu_growth = round2 rt cpuGrowth,
                 memory_growth = round2 rt memoryGrowth,
                 network_growth = round2 rt networkGrowth \<rparr>)))))"

text \<open>\<open>prevItem\<close> is read only when \<open>index > 0\<close>, where \<open>index - 1\<close> is in range.\<close>

definition processedData_daily :: "'d runtime \<Rightarrow> row list \<Rightarrow> error + 'd daily list" where
  "processedData_daily rt data =
     (if data = [] then Inr []
      else collect (map (\<lambda>index. daily_row rt data index (data ! index)) [0..<length data]))"

section \<open>Capacity chart data (DatabaseCapacityChart)\<close>

record 'd capacity_point =
  date :: string
  fullDate :: "'d"
  dailyInputs :: jsnum
  cpuUsage :: jsval
  memoryUsage :: jsval
  networkTraffic :: jsval
  powerConsumption :: jsval

text \<open>The callback of \<open>data.map\<close>. \<open>Math.random()\<close> is called once per row; \<open>random\<close>
  is the value it returns for this row, a real from 0 up to but excluding 1. \<open>parsed\<close>
  is the timestamp, or \<open>None\<close> when \<open>parseISO\<close> throws.\<close>

definition capacity_row :: "'d runtime \<Rightarrow> real \<Rightarrow> nat \<Rightarrow> row \<Rightarrow> error + 'd capacity_point" where
  "capacity_row rt random index item =
     (let parsed = (if truthy (item ''timestamp'') then parseISO rt (item ''timestamp'')
                    else Some (dateFromParts rt 2025 0 (int index + 1)));
          baseInputs =
            math_round
              (num_add rt (num_mul rt (to_number rt (or_default (item ''cpu_usage'') 50)) (Num 10))
                          (num_mul rt (to_number rt (or_default (item ''memory_usage'') 50)) (Num 5)));
          variation = num_sub rt (num_mul rt (Num random) (Num 400)) (Num 200);
          dailyInputs = math_max0 (num_add rt baseInputs variation)
      in case parsed of
           None \<Rightarrow> Inl TypeError
         | Some timestamp \<Rightarrow>
             (case format rt timestamp ''MMM dd'' of
                None \<Rightarrow> Inl RangeError
              | Some formatted \<Rightarrow>
                  Inr \<lparr> capacity_point.date = formatted,
                        fullDate = timestamp,
                        dailyInputs = math_round dailyInputs,
                        cpuUsage = or_default (item ''cpu_usage'') 0,
                        memoryUsage = or_default (item ''memory_usage'') 0,
                        networkTraffic = or_default (item ''network_traffic'') 0,
                        powerConsumption = or_default (item ''power_consumption'') 0 \<rparr>))"

text \<open>\<open>draws i\<close> is the result of the call of \<open>Math.random()\<close> made for row \<open>i\<close>.\<close>

definition processedData_capacity ::
  "'d runtime \<Rightarrow> (nat \<Rightarrow> real) \<Rightarrow> row list \<Rightarrow> error + 'd capacity_point list" where
  "processedData_capacity rt draws data =
     (if data = [] then Inr []
      else collect (map (\<lambda>index. capacity_row rt (draws index) index (data ! index))
                        [0..<length data]))"

section \<open>Ingestion (FileUpload, Index)\<close>

datatype upload_status = Pending | Uploading | Complete | Error

record FileStatus =
  name :: string
  status :: upload_status
  progress :: nat
  error :: "string option"
  file_data :: "row list option"

text \<open>What the CSV parser reports for a file: its \<open>complete\<close> callback with the rows and
  the messages of \<open>results.errors\<close>, or its \<open>error\<close> callback with a message.\<close>

datatype parse_outcome = Completed "row list" "string list" | Failed string

text \<open>The state of the upload dialog and of the page: the file's status, the loaded
  rows, whether the dialog is open, and the notifications shown.\<close>

record app =
  predictionFile :: "FileStatus option"
  predictionsData :: "row list"
  showFileUpload :: bool
  toasts :: "(string \<times> string) list"

text \<open>\<open>processFile\<close>: the new state and how the promise settles (\<open>Inl\<close>: rejected with
  the message, \<open>Inr\<close>: resolved with the rows).\<close>

definition processFile :: "string \<Rightarrow> parse_outcome \<Rightarrow> app \<Rightarrow> (string + row list) \<times> app" where
  "processFile file_name outcome st =
     (let fileStatus = \<lparr> name = file_name, status = Uploading, progress = 0, error = None,
                         file_data = None \<rparr>;
          st = st \<lparr> predictionFile := Some fileStatus \<rparr>
      in case outcome of
           Completed rows errors \<Rightarrow>
             (case errors of
                message # _ \<Rightarrow>
                  (Inl message,
                   st \<lparr> predictionFile :=
                          Some (fileStatus \<lparr> FileStatus.status := Error, error := Some message \<rparr>) \<rparr>)
              | [] \<Rightarrow>
                  (Inr rows,
                   st \<lparr> predictionFile :=
                          Some (fileStatus \<lparr> FileStatus.status := Complete, progress := 100,
                                             file_data := Some rows \<rparr>) \<rparr>))
         | Failed message \<Rightarrow>
             (Inl message,
              st \<lparr> predictionFile :=
                     Some (fileStatus \<lparr> FileStatus.status := Error, error := Some message \<rparr>) \<rparr>))"

text \<open>\<open>onPredictionsDrop\<close>: the first accepted file is processed; a rejection is logged
  and goes no further.\<close>

definition onPredictionsDrop :: "(string \<times> parse_outcome) list \<Rightarrow> app \<Rightarrow> app" where
  "onPredictionsDrop acceptedFiles st =
     (case acceptedFiles of
        [] \<Rightarrow> st
      | (file_name, outcome) # _ \<Rightarrow> snd (processFile file_name outcome st))"

text \<open>\<open>handleDataLoad\<close> of the page, and \<open>handleLoadData\<close> of the dialog, which calls it
  and closes the dialog when the file's status carries rows.\<close>

definition handleDataLoad :: "'d runtime \<Rightarrow> row list \<Rightarrow> app \<Rightarrow> app" where
  "handleDataLoad rt predictions st =
     st \<lparr> predictionsData := predictions,
          toasts := toasts st @
            [(''Data Loaded Successfully'',
              ''Loaded '' @ toLocaleString rt (length predictions) @ '' predictions'')] \<rparr>"

definition handleLoadData :: "'d runtime \<Rightarrow> app \<Rightarrow> app" where
  "handleLoadData rt st =
     (case predictionFile st of
        None \<Rightarrow> st
      | Some file \<Rightarrow>
          (case file_data file of
             None \<Rightarrow> st
           | Some rows \<Rightarrow> (handleDataLoad rt rows st) \<lparr> showFileUpload := False \<rparr>))"

text \<open>The button that calls \<open>handleLoadData\<close> is enabled when \<open>canLoadData\<close> holds.\<close>

definition canLoadData :: "app \<Rightarrow> bool" where
  "canLoadData st =
     (case predictionFile st of None \<Rightarrow> False | Some file \<Rightarrow> FileStatus.status file = Complete)"

section \<open>Whole-dataset statistics (DatabaseMetricsGrid)\<close>

record metrics =
  totalInputs :: nat
  dailyAverage :: jsnum
  cpuAvg :: jsnum
  memoryAvg :: jsnum
  networkAvg :: jsnum
  trendPercent :: string
  highLoadDays :: nat

text \<open>\<open>rows.reduce((sum, item) => sum + (item.f || 0), 0) / rows.length\<close>.\<close>

definition field_average :: "'d runtime \<Rightarrow> string \<Rightarrow> row list \<Rightarrow> jsnum" where
  "field_average rt f rows =
     num_div rt
       (to_number rt
          (foldl (\<lambda>sum item. js_plus rt sum (or_default (item f) 0)) (Number (Num 0)) rows))
       (Num (real (length rows)))"

text \<open>\<open>(item.f || 0) > c\<close>.\<close>

definition field_above :: "'d runtime \<Rightarrow> row \<Rightarrow> string \<Rightarrow> real \<Rightarrow> bool" where
  "field_above rt item f c = js_greater (to_number rt (or_default (item f) 0)) (Num c)"

text \<open>\<open>calculateMetrics\<close> returns \<open>null\<close> on empty data.\<close>

definition calculateMetrics :: "'d runtime \<Rightarrow> row list \<Rightarrow> metrics option" where
  "calculateMetrics rt data =
     (if data = [] then None
      else
        (let totalInputs = length data;
             dailyAverage = math_round (num_div rt (Num (real totalInputs)) (Num 365));
             cpuAvg = field_average rt ''cpu_usage'' data;
             memoryAvg = field_average rt ''memory_usage'' data;
             networkAvg = field_average rt ''network_traffic'' data;
             recent30Days = slice_last 30 data;
             previous30Days = slice_before_last 60 30 data;
             recentAvg = field_average rt ''cpu_usage'' recent30Days;
             previousAvg = field_average rt ''cpu_usage'' previous30Days;
             trendPercent =
               toFixed rt
                 (num_mul rt (num_div rt (num_sub rt recentAvg previousAvg) previousAvg) (Num 100))
                 1;
             highLoadDays =
               length (filter (\<lambda>item. field_above rt item ''cpu_usage'' 80
                                     \<or> field_above rt item ''memory_usage'' 85
                                     \<or> field_above rt item ''network_traffic'' 90) data)
         in Some \<lparr> totalInputs = totalInputs, dailyAverage = dailyAverage, cpuAvg = cpuAvg,
                   memoryAvg = memoryAvg, networkAvg = networkAvg, trendPercent = trendPercent,
                   highLoadDays = highLoadDays \<rparr>))"

section \<open>Maintenance heuristic (MaintenancePredictions)\<close>

text \<open>A task descriptor; the \<open>icon\<close> field, a reference to a component, is left out.\<close>

record task =
  task_id :: string
  title :: string
  status :: string
  severity :: string
  description :: string
  estimatedTime :: string
  action :: string
  details :: string
  frequency :: string

definition maintenanceTasks :: "'d runtime \<Rightarrow> row list \<Rightarrow> task list" where
  "maintenanceTasks rt data =
     (if data = [] then []
      else
        (let totalInputs = length data;
             avgCpuUsage = field_average rt ''cpu_usage'' data;
             avgMemoryUsage = field_average rt ''memory_usage'' data;
             avgNetworkTraffic = field_average rt ''network_traffic'' data;
             highUsageDays =
               length (filter (\<lambda>item. field_above rt item ''cpu_usage'' 80
                                     \<or> field_above rt item ''memory_usage'' 85) data);
             vacuumFrequency = math_ceil (num_div rt (Num (real totalInputs)) (Num 50000));
             estimatedTime =
               math_round (num_mul rt (num_div rt (Num (real totalInputs)) (Num 100000)) (Num 24))
         in [\<lparr> task_id = ''vacuum'',
               title = ''Database Vacuuming'',
               status = (if 50 < highUsageDays then ''Required'' else ''Scheduled''),
               severity = (if 50 < highUsageDays then ''high'' else ''medium''),
               description = ''Database requires vacuuming due to '' @
                             toLocaleString rt totalInputs @ '' total inputs'',
               estimatedTime = numberToString rt estimatedTime @ ''-'' @
                               numberToString rt (num_add rt estimatedTime (Num 2)),
               action = ''Schedule Run VACUUM ANALYZE'',
               details = ''Improved query performance and space reclamation'',
               frequency = ''Every '' @ numberToString rt vacuumFrequency @ '' days'' \<rparr>,
             \<lparr> task_id = ''index'',
               title = ''Index Rebuilding'',
               status = (if js_greater avgCpuUsage (Num 75) then ''Recommended'' else ''Optimal''),
               severity = (if js_greater avgCpuUsage (Num 75) then ''medium'' else ''low''),
               description = ''Index maintenance not currently required'',
               estimatedTime = ''1-2'',
               action = ''Monitor performance metrics'',
               details = ''Indexes are performing within optimal ranges'',
               frequency = ''As needed'' \<rparr>,
             \<lparr> task_id = ''statistics'',
               title = ''Statistics Update'',
               status = ''Scheduled'',
               severity = ''medium'',
               description = ''Regular statistics update for query optimization'',
               estimatedTime = ''0.5-1'',
               action = ''Auto-scheduled weekly'',
               details = ''Maintains query planner accuracy'',
               frequency = ''Weekly'' \<rparr>]))"

section \<open>Event correlation (ExternalEventsChart)\<close>

text \<open>The object kept per month in \<open>monthlyPredictions\<close>, and one element of
  \<open>correlatedData\<close> / \<open>filteredData\<close>: the object literal built per month.\<close>

record month_predictions =
  month :: string
  cpu_values :: "jsnum list"
  memory_values :: "jsnum list"
  network_values :: "jsnum list"
  power_values :: "jsnum list"
  events :: "row list"

record correlated =
  month :: string
  cpu_avg :: jsnum
  memory_avg :: jsnum
  network_avg :: jsnum
  power_avg :: jsnum
  event_count :: nat
  high_severity_events :: nat
  event_impact :: nat
  events :: "row list"

text \<open>The body of \<open>predictionsData.forEach\<close>: one prediction row is added to the map.\<close>

definition predictions_step ::
  "'d runtime \<Rightarrow> (string \<times> month_predictions) list \<Rightarrow> row
   \<Rightarrow> (string \<times> month_predictions) list" where
  "predictions_step rt monthlyPredictions item =
     (if \<not> truthy (item ''timestamp'') then monthlyPredictions
      else
        (let date = newDate rt (item ''timestamp'');
             monthKey = monthKey_of rt date;
             monthData =
               (case map_of monthlyPredictions monthKey of
                  None \<Rightarrow> \<lparr> month_predictions.month = monthKey, cpu_values = [],
                            memory_values = [], network_values = [], power_values = [],
                            month_predictions.events = [] \<rparr>
                | Some monthData \<Rightarrow> monthData)
         in map_set monthKey
              (monthData
                 \<lparr> cpu_values := push_value rt (item ''cpu_usage'') (cpu_values monthData),
                   memory_values := push_value rt (item ''memory_usage'') (memory_values monthData),
                   network_values :=
                     push_value rt (item ''network_traffic'') (network_values monthData),
                   power_values :=
                     push_value rt (item ''power_consumption'') (power_values monthData) \<rparr>)
              monthlyPredictions))"

text \<open>The body of \<open>eventsData.forEach\<close>: an event is pushed to the object of its month
  when the map has that month, and dropped otherwise.\<close>

definition events_step ::
  "'d runtime \<Rightarrow> (string \<times> month_predictions) list \<Rightarrow> row
   \<Rightarrow> (string \<times> month_predictions) list" where
  "events_step rt monthlyPredictions event =
     (if \<not> truthy (event ''timestamp'') then monthlyPredictions
      else
        (let date = newDate rt (event ''timestamp'');
             monthKey = monthKey_of rt date
         in case map_of monthlyPredictions monthKey of
              None \<Rightarrow> monthlyPredictions
            | Some monthData \<Rightarrow>
                map_set monthKey
                  (monthData \<lparr> month_predictions.events :=
                                 month_predictions.events monthData @ [event] \<rparr>)
                  monthlyPredictions))"

text \<open>\<open>s.includes(t)\<close>: \<open>t\<close> occurs in \<open>s\<close> as a substring.\<close>

fun str_includes :: "string \<Rightarrow> string \<Rightarrow> bool" where
  "str_includes [] t = (t = [])"
| "str_includes (c # s) t = (take (length t) (c # s) = t \<or> str_includes s t)"

text \<open>\<open>e.type?.toLowerCase().includes(t)\<close>: \<open>undefined\<close>, which is falsy, when the event
  has no type; a type that is a number has no method \<open>toLowerCase\<close>, and the call
  throws.\<close>

definition type_includes :: "'d runtime \<Rightarrow> row \<Rightarrow> string \<Rightarrow> error + bool" where
  "type_includes rt e t =
     (case e ''type'' of
        Undefined \<Rightarrow> Inr False
      | Str s \<Rightarrow> Inr (str_includes (toLowerCase rt s) t)
      | Number n \<Rightarrow> Inl TypeError)"

text \<open>The callback of the filter that counts the events of high severity; \<open>||\<close>
  evaluates its right operand only when the left one is falsy.\<close>

definition high_severity :: "'d runtime \<Rightarrow> row \<Rightarrow> error + bool" where
  "high_severity rt e =
     (if e ''severity'' = Str ''high'' then Inr True
      else and_then (type_includes rt e ''earthquake'')
             (\<lambda>found. if found then Inr True else type_includes rt e ''covid''))"

text \<open>The callback of \<open>map\<close>, which computes the averages and the event figures of one
  month.\<close>

definition correlated_of :: "'d runtime \<Rightarrow> month_predictions \<Rightarrow> error + correlated" where
  "correlated_of rt monthData =
     (let cpu_avg = average rt (cpu_values monthData);
          memory_avg = average rt (memory_values monthData);
          network_avg = average rt (network_values monthData);
          power_avg = average rt (power_values monthData);
          eventCount = length (month_predictions.events monthData)
      in and_then (collect (map (high_severity rt) (month_predictions.events monthData)))
           (\<lambda>flags.
              (let highSeverityEvents = length (filter (\<lambda>flag. flag) flags);
                   eventImpact = eventCount * 5 + highSeverityEvents * 15
               in Inr \<lparr> month = month_predictions.month monthData, cpu_avg = cpu_avg,
                         memory_avg = memory_avg, network_avg = network_avg,
                         power_avg = power_avg, event_count = eventCount,
                         high_severity_events = highSeverityEvents,
                         event_impact = eventImpact,
                         events = month_predictions.events monthData \<rparr>)))"

text \<open>\<open>correlatedData\<close>, a function of the two props \<open>predictionsData\<close> and
  \<open>eventsData\<close>: the months of the prediction rows, with the events of each month, sorted
  by month.\<close>

definition correlatedData ::
  "'d runtime \<Rightarrow> row list \<Rightarrow> row list \<Rightarrow> error + correlated list" where
  "correlatedData rt predictions eventRows =
     (if predictions = [] \<or> eventRows = [] then Inr []
      else
        (let monthlyPredictions =
               foldl (events_step rt) (foldl (predictions_step rt) [] predictions) eventRows
         in and_then
              (collect (map (\<lambda>(k, monthData). correlated_of rt monthData) monthlyPredictions))
              (\<lambda>out. Inr (js_sort (\<lambda>a b. localeCompare rt (month a) (month b)) out))))"

text \<open>\<open>filteredData\<close>: with a filter other than \<open>all\<close>, each month keeps the events of
  the chosen type, and its event count is their number.\<close>

definition filteredData :: "string \<Rightarrow> correlated list \<Rightarrow> correlated list" where
  "filteredData eventFilter correlated =
     (if eventFilter = ''all'' then correlated
      else map (\<lambda>item. item \<lparr> events := filter (\<lambda>e. e ''type'' = Str eventFilter) (events item),
                              event_count :=
                                length (filter (\<lambda>e. e ''type'' = Str eventFilter) (events item)) \<rparr>)
             correlated)"

text \<open>\<open>getMetricData\<close> returns the name of the field to read; the model returns the
  field's selector.\<close>

definition getMetricData :: "string \<Rightarrow> correlated \<Rightarrow> jsnum" where
  "getMetricData metric =
     (if metric = ''cpu'' then cpu_avg
      else if metric = ''memory'' then memory_avg
      else if metric = ''network'' then network_avg
      else if metric = ''power'' then power_avg
      else cpu_avg)"

text \<open>The \<open>for\<close> loop of \<open>calculateCorrelation\<close>, with its three accumulators.\<close>

function correlation_loop ::
  "'d runtime \<Rightarrow> jsnum list \<Rightarrow> jsnum list \<Rightarrow> jsnum \<Rightarrow> jsnum \<Rightarrow> nat \<Rightarrow> nat \<Rightarrow>
   jsnum \<times> jsnum \<times> jsnum \<Rightarrow> jsnum \<times> jsnum \<times> jsnum" where
  "correlation_loop rt metricValues eventValues meanMetric meanEvents n i
       (numerator, denomMetric, denomEvents) =
     (if i < n then
        (let metricDiff = num_sub rt (num_at metricValues i) meanMetric;
             eventDiff = num_sub rt (num_at eventValues i) meanEvents
         in correlation_loop rt metricValues eventValues meanMetric meanEvents n (Suc i)
              (num_add rt numerator (num_mul rt metricDiff eventDiff),
               num_add rt denomMetric (num_mul rt metricDiff metricDiff),
               num_add rt denomEvents (num_mul rt eventDiff eventDiff)))
      else (numerator, denomMetric, denomEvents))"
  by pat_completeness auto
termination
  by (relation "measure (\<lambda>(rt, mv, ev, mm, me, n, i, acc). n - i)") auto

declare correlation_loop.simps [simp del]

definition calculateCorrelation :: "'d runtime \<Rightarrow> correlated list \<Rightarrow> string \<Rightarrow> jsnum" where
  "calculateCorrelation rt filtered selectedMetric =
     (let validData = filter (\<lambda>item. num_truthy (getMetricData selectedMetric item)
                                     \<and> event_count item \<noteq> 0) filtered
      in if length validData < 2 then Num 0
         else
           (let metricValues = map (getMetricData selectedMetric) validData;
                eventValues = map (\<lambda>item. Num (real (event_count item))) validData;
                meanMetric = num_div rt (foldl (num_add rt) (Num 0) metricValues)
                                        (Num (real (length metricValues)));
                meanEvents = num_div rt (foldl (num_add rt) (Num 0) eventValues)
                                        (Num (real (length eventValues)));
                (numerator, denomMetric, denomEvents) =
                   correlation_loop rt metricValues eventValues meanMetric meanEvents
                     (length validData) 0 (Num 0, Num 0, Num 0);
                correlation =
                  num_div rt numerator (mathSqrt rt (num_mul rt denomMetric denomEvents))
            in if isNaN correlation then Num 0 else correlation))"

subsection \<open>The coefficient as the specification writes it\<close>

text \<open>
  The specification (4.2) gives the coefficient as the sum of the products of the two
  sequences' deviations from their means, divided by the square root of the product of
  the two sums of squared deviations. The following definitions follow that wording:
  first with exact operations, then with the runtime's rounded operations, summing from
  left to right. The code's loop is compared with them below.
\<close>

primrec js_sum :: "jsnum list \<Rightarrow> jsnum" where
  "js_sum [] = Num 0"
| "js_sum (x # xs) = js_add x (js_sum xs)"

definition js_mean :: "jsnum list \<Rightarrow> jsnum" where
  "js_mean xs = js_div (js_sum xs) (Num (real (length xs)))"

definition pearson :: "jsnum list \<Rightarrow> jsnum list \<Rightarrow> jsnum" where
  "pearson xs ys =
     (let xbar = js_mean xs; ybar = js_mean ys
      in js_div
           (js_sum (map (\<lambda>(x, y). js_mul (js_sub x xbar) (js_sub y ybar)) (zip xs ys)))
           (js_sqrt (js_mul
              (js_sum (map (\<lambda>x. js_mul (js_sub x xbar) (js_sub x xbar)) xs))
              (js_sum (map (\<lambda>y. js_mul (js_sub y ybar) (js_sub y ybar)) ys)))))"

definition num_sum :: "'d runtime \<Rightarrow> jsnum list \<Rightarrow> jsnum" where
  "num_sum rt xs = foldl (num_add rt) (Num 0) xs"

definition num_mean :: "'d runtime \<Rightarrow> jsnum list \<Rightarrow> jsnum" where
  "num_mean rt xs = num_div rt (num_sum rt xs) (Num (real (length xs)))"

definition pearson_computed :: "'d runtime \<Rightarrow> jsnum list \<Rightarrow> jsnum list \<Rightarrow> jsnum" where
  "pearson_computed rt xs ys =
     (let xbar = num_mean rt xs; ybar = num_mean rt ys
      in num_div rt
           (num_sum rt (map (\<lambda>(x, y). num_mul rt (num_sub rt x xbar) (num_sub rt y ybar))
                            (zip xs ys)))
           (mathSqrt rt (num_mul rt
              (num_sum rt (map (\<lambda>x. num_mul rt (num_sub rt x xbar) (num_sub rt x xbar)) xs))
              (num_sum rt (map (\<lambda>y. num_mul rt (num_sub rt y ybar) (num_sub rt y ybar)) ys)))))"

text \<open>A runtime whose arithmetic is exact: nothing is rounded, and \<open>Math.sqrt\<close> is the
  real square root.\<close>

definition exact_arithmetic :: "'d runtime \<Rightarrow> bool" where
  "exact_arithmetic rt \<longleftrightarrow> nearest rt = Num \<and> mathSqrt rt = js_sqrt"

text \<open>The guard \<open>isNaN(correlation) ? 0 : correlation\<close>.\<close>

definition nan_to_zero :: "jsnum \<Rightarrow> jsnum" where
  "nan_to_zero r = (if isNaN r then Num 0 else r)"

text \<open>A sequence has zero variance when its sum of squared deviations from the mean is
  zero; a pair of sequences is degenerate when one of them has fewer than two points or
  zero variance.\<close>

definition zero_variance :: "jsnum list \<Rightarrow> bool" where
  "zero_variance xs =
     (js_sum (map (\<lambda>x. js_mul (js_sub x (js_mean xs)) (js_sub x (js_mean xs))) xs) = Num 0)"

definition degenerate :: "jsnum list \<Rightarrow> jsnum list \<Rightarrow> bool" where
  "degenerate xs ys = (length xs < 2 \<or> length ys < 2 \<or> zero_variance xs \<or> zero_variance ys)"

text \<open>A sequence has no computed deviation when every element minus the computed mean
  is 0 in the runtime's arithmetic: a constant sequence whose mean is computed without
  rounding error.\<close>

definition no_deviation :: "'d runtime \<Rightarrow> jsnum list \<Rightarrow> bool" where
  "no_deviation rt xs = list_all (\<lambda>x. num_sub rt x (num_mean rt xs) = Num 0) xs"

text \<open>The two sequences the estimator correlates, read off a list of monthly rows, and
  the rows whose metric average and event count are both nonzero (an average is never
  NaN in \<open>correlatedData\<close>; a NaN would be dropped with the zeros).\<close>

definition metric_seq :: "string \<Rightarrow> correlated list \<Rightarrow> jsnum list" where
  "metric_seq metric rows = map (getMetricData metric) rows"

definition event_seq :: "correlated list \<Rightarrow> jsnum list" where
  "event_seq rows = map (\<lambda>item. Num (real (event_count item))) rows"

definition valid_rows :: "string \<Rightarrow> correlated list \<Rightarrow> correlated list" where
  "valid_rows metric rows =
     filter (\<lambda>item. getMetricData metric item \<noteq> Num 0 \<and> getMetricData metric item \<noteq> NaN
                    \<and> event_count item \<noteq> 0) rows"

text \<open>A monthly row with a given CPU average and event count, for examples.\<close>

definition month_row :: "real \<Rightarrow> nat \<Rightarrow> correlated" where
  "month_row x n = \<lparr> month = ''2025-01'', cpu_avg = Num x, memory_avg = Num 0,
     network_avg = Num 0, power_avg = Num 0, event_count = n, high_severity_events = 0,
     event_impact = 5 * n, events = [] \<rparr>"

text \<open>The rows of the two examples of the specification: the averages 1, 2, 3 against
  the counts 1, 2, 3 and against 3, 2, 1.\<close>

definition rows_up :: "correlated list" where
  "rows_up = [month_row 1 1, month_row 2 2, month_row 3 3]"

definition rows_down :: "correlated list" where
  "rows_down = [month_row 1 3, month_row 2 2, month_row 3 1]"

subsection \<open>Auxiliary notions for the proofs\<close>

text \<open>One iteration of the loop body on the accumulators, and the real-valued mean,
  co-deviation and squared deviation of finite sequences.\<close>

definition corr_step ::
  "'d runtime \<Rightarrow> jsnum \<Rightarrow> jsnum \<Rightarrow> jsnum \<times> jsnum \<times> jsnum \<Rightarrow> jsnum \<times> jsnum
   \<Rightarrow> jsnum \<times> jsnum \<times> jsnum" where
  "corr_step rt mm me acc p =
     (case acc of (numerator, denomMetric, denomEvents) \<Rightarrow>
        (let metricDiff = num_sub rt (fst p) mm; eventDiff = num_sub rt (snd p) me
         in (num_add rt numerator (num_mul rt metricDiff eventDiff),
             num_add rt denomMetric (num_mul rt metricDiff metricDiff),
             num_add rt denomEvents (num_mul rt eventDiff eventDiff))))"

fun finite_num :: "jsnum \<Rightarrow> bool" where
  "finite_num (Num a) = True"
| "finite_num _ = False"

definition rmean :: "real list \<Rightarrow> real" where
  "rmean us = sum_list us / real (length us)"

definition covar :: "real list \<Rightarrow> real list \<Rightarrow> real" where
  "covar us vs = (\<Sum>(u, v)\<leftarrow>zip us vs. (u - rmean us) * (v - rmean vs))"

definition sqdev :: "real list \<Rightarrow> real" where
  "sqdev us = (\<Sum>u\<leftarrow>us. (u - rmean us) * (u - rmean us))"

definition zero_or_NaN :: "jsnum \<Rightarrow> bool" where
  "zero_or_NaN x = (x = Num 0 \<or> x = NaN)"

subsection \<open>Notions for the monthly aggregation\<close>

text \<open>A row is dated when its timestamp field is truthy (present and not empty); its
  key is the month key of the date the runtime makes of that field. The rows of a bucket
  are the dated rows of the input with the bucket's key, in input order.\<close>

definition dated :: "row \<Rightarrow> bool" where
  "dated item = truthy (item ''timestamp'')"

definition row_key :: "'d runtime \<Rightarrow> row \<Rightarrow> string" where
  "row_key rt item = monthKey_of rt (newDate rt (item ''timestamp''))"

definition bucket_rows :: "'d runtime \<Rightarrow> row list \<Rightarrow> string \<Rightarrow> row list" where
  "bucket_rows rt data k = filter (\<lambda>item. dated item \<and> row_key rt item = k) data"

text \<open>The values of a metric over some rows: of the rows in which the field is present,
  and of all rows with 0 substituted where it is missing.\<close>

definition present_values :: "'d runtime \<Rightarrow> string \<Rightarrow> row list \<Rightarrow> jsnum list" where
  "present_values rt f rows =
     map (\<lambda>item. num_or_zero (parseFloat rt (item f))) (filter (\<lambda>item. item f \<noteq> Undefined) rows)"


text \<open>The per-month object holds, for each metric, the present values of its key's
  rows.\<close>

definition collects :: "'d runtime \<Rightarrow> row list \<Rightarrow> string \<Rightarrow> 'd month_data \<Rightarrow> bool" where
  "collects rt data k md \<longleftrightarrow>
     month_data.month md = k
     \<and> cpu_usage md = present_values rt ''cpu_usage'' (bucket_rows rt data k)
     \<and> memory_usage md = present_values rt ''memory_usage'' (bucket_rows rt data k)
     \<and> network_traffic md = present_values rt ''network_traffic'' (bucket_rows rt data k)
     \<and> power_consumption md = present_values rt ''power_consumption'' (bucket_rows rt data k)
     \<and> month_data.cpu_growth md = present_values rt ''cpu_usage_growth_pct'' (bucket_rows rt data k)
     \<and> month_data.memory_growth md =
         present_values rt ''memory_usage_growth_pct'' (bucket_rows rt data k)
     \<and> month_data.network_growth md =
         present_values rt ''network_traffic_growth_pct'' (bucket_rows rt data k)"

text \<open>The same notions for the second aggregator, \<open>correlatedData\<close>: what the
  per-month object of \<open>monthlyPredictions\<close> collects; an event whose type is a string or
  absent; the months in strictly ascending order; and the mean a bucket should carry for
  a metric, that of the present values of the bucket's rows.\<close>

definition collects_values :: "'d runtime \<Rightarrow> row list \<Rightarrow> string \<Rightarrow> month_predictions \<Rightarrow> bool" where
  "collects_values rt data k md \<longleftrightarrow>
     month_predictions.month md = k
     \<and> cpu_values md = present_values rt ''cpu_usage'' (bucket_rows rt data k)
     \<and> memory_values md = present_values rt ''memory_usage'' (bucket_rows rt data k)
     \<and> network_values md = present_values rt ''network_traffic'' (bucket_rows rt data k)
     \<and> power_values md = present_values rt ''power_consumption'' (bucket_rows rt data k)"

definition textual_type :: "row \<Rightarrow> bool" where
  "textual_type e = (case e ''type'' of Number n \<Rightarrow> False | _ \<Rightarrow> True)"

definition ascending_months :: "'d runtime \<Rightarrow> correlated list \<Rightarrow> bool" where
  "ascending_months rt out = sorted_wrt (\<lambda>a b. localeCompare rt (month a) (month b) < 0) out"

definition mean_of_present :: "'d runtime \<Rightarrow> row list \<Rightarrow> string \<Rightarrow> string \<Rightarrow> jsnum" where
  "mean_of_present rt data k f =
     num_or_zero (num_mean rt (present_values rt f (bucket_rows rt data k)))"

text \<open>What holds of the map from the first loop on, and is kept by the second: the keys
  are distinct, every object collects the present values of its key's rows, and its
  events are among the given ones.\<close>

definition months_of ::
  "'d runtime \<Rightarrow> row list \<Rightarrow> row set \<Rightarrow> (string \<times> month_predictions) list \<Rightarrow> bool" where
  "months_of rt data evs m \<longleftrightarrow>
     distinct (map fst m)
     \<and> (\<forall>p\<in>set m. bucket_rows rt data (fst p) \<noteq> [] \<and> collects_values rt data (fst p) (snd p)
                    \<and> set (month_predictions.events (snd p)) \<subseteq> evs)"

text \<open>What the ordering of the output needs of the runtime's collation: it is a total
  preorder, and it never reports two different month keys as equal.\<close>

definition total_preorder :: "(string \<Rightarrow> string \<Rightarrow> int) \<Rightarrow> bool" where
  "total_preorder c \<longleftrightarrow>
     (\<forall>a b. c a b \<le> 0 \<or> c b a \<le> 0) \<and> (\<forall>a b d. c a b \<le> 0 \<longrightarrow> c b d \<le> 0 \<longrightarrow> c a d \<le> 0)"

definition separates_keys :: "'d runtime \<Rightarrow> bool" where
  "separates_keys rt \<longleftrightarrow>
     (\<forall>d e. localeCompare rt (monthKey_of rt d) (monthKey_of rt e) = 0
            \<longrightarrow> monthKey_of rt d = monthKey_of rt e)"

text \<open>Buckets in strictly ascending order of their keys, as the collation compares
  them.\<close>

definition ascending_keys :: "'d runtime \<Rightarrow> monthly list \<Rightarrow> bool" where
  "ascending_keys rt out =
     sorted_wrt (\<lambda>a b. localeCompare rt (monthly.month a) (monthly.month b) < 0) out"

subsection \<open>A runtime and rows for examples\<close>

text \<open>A small runtime: dates are triples of year, month index and day; the conversions
  answer on the strings the examples use; strings compare by character code; the
  arithmetic is exact.\<close>

definition sample_newDate :: "jsval \<Rightarrow> (int \<times> int \<times> int) option" where
  "sample_newDate v =
     (if v = Str ''2025-01-15'' then Some (2025, 0, 15)
      else if v = Str ''2025-01-20'' then Some (2025, 0, 20)
      else if v = Str ''2024-12-03'' then Some (2024, 11, 3)
      else None)"

definition sample_parseFloat :: "string \<Rightarrow> jsnum" where
  "sample_parseFloat s =
     (if s = ''80'' then Num 80 else if s = ''40'' then Num 40 else if s = ''60'' then Num 60
      else NaN)"

definition sample_compare :: "string \<Rightarrow> string \<Rightarrow> int" where
  "sample_compare a b = (if a < b then - 1 else if a = b then 0 else 1)"

definition sample_toLowerCase :: "string \<Rightarrow> string" where
  "sample_toLowerCase s = (if s = ''Earthquake'' then ''earthquake'' else s)"

fun sample_numberToString :: "jsnum \<Rightarrow> string" where
  "sample_numberToString (Num a) = show_int \<lfloor>a\<rfloor>"
| "sample_numberToString PInf = ''Infinity''"
| "sample_numberToString NInf = ''-Infinity''"
| "sample_numberToString NaN = ''NaN''"

definition sample_runtime :: "(int \<times> int \<times> int) option runtime" where
  "sample_runtime =
     \<lparr> newDate = sample_newDate,
       dateFromParts = (\<lambda>y m d. Some (y, m, d)),
       getFullYear = map_option fst,
       getMonth = map_option (\<lambda>d. fst (snd d)),
       toLocaleDateString = (\<lambda>d. case d of None \<Rightarrow> ''Invalid Date''
                                    | Some (y, m, d) \<Rightarrow> show_int (m + 1) @ ''/'' @ show_int d),
       parseISO = (\<lambda>v. if is_string v then Some (sample_newDate v) else None),
       format = (\<lambda>d p. case d of None \<Rightarrow> None
                        | Some (y, m, d) \<Rightarrow> Some (show_int (m + 1) @ '' '' @ show_int d)),
       parseFloatStr = sample_parseFloat,
       stringToNumber = sample_parseFloat,
       numberToString = sample_numberToString,
       toFixed = (\<lambda>n k. sample_numberToString n),
       toLocaleString = show_nat,
       localeCompare = sample_compare,
       toLowerCase = sample_toLowerCase,
       nearest = Num,
       mathSqrt = js_sqrt \<rparr>"

definition empty_row :: row where
  "empty_row = (\<lambda>column. Undefined)"

text \<open>Two rows of January 2025, the second without a CPU value; a row of December
  2024; a row without timestamp.\<close>

definition sample_rows :: "row list" where
  "sample_rows =
     [empty_row(''timestamp'' := Str ''2025-01-15'', ''cpu_usage'' := Str ''80''),
      empty_row(''timestamp'' := Str ''2024-12-03'', ''cpu_usage'' := Number (Num 60)),
      empty_row(''cpu_usage'' := Str ''40''),
      empty_row(''timestamp'' := Str ''2025-01-20'')]"

text \<open>Two events, one of January 2025 and one without timestamp.\<close>

definition sample_events :: "row list" where
  "sample_events =
     [empty_row(''timestamp'' := Str ''2025-01-20'', ''type'' := Str ''Earthquake'',
                ''severity'' := Str ''low''),
      empty_row(''type'' := Str ''Holiday'')]"

text \<open>A row whose timestamp is not empty and does not parse.\<close>

definition unparseable_rows :: "row list" where
  "unparseable_rows = [empty_row(''timestamp'' := Str ''tomorrow'', ''cpu_usage'' := Str ''80'')]"

subsection \<open>Double-precision arithmetic\<close>

text \<open>
  An engine rounds the exact result of an operation to the nearest double, a tie to the
  double with the even significand. A double is an integer multiple \<open>n * 2 powi (e - 52)\<close>
  with \<open>\<bar>n\<bar> < 2 ^ 53\<close>, for an exponent \<open>e\<close> from -1022 to 1023; below \<open>2 powi - 1022\<close> the
  spacing stays \<open>2 powi - 1074\<close>, and a result that rounds to \<open>2 powi 1024\<close> or beyond is an
  infinity.
\<close>

text \<open>The nearest integer, a half going to the even neighbour.\<close>

definition round_even :: "real \<Rightarrow> int" where
  "round_even x =
     (let f = \<lfloor>x\<rfloor>; d = x - of_int f
      in if d < 1 / 2 then f else if 1 / 2 < d then f + 1 else if even f then f else f + 1)"

text \<open>The binary exponent of a positive real \<open>x\<close>, the \<open>e\<close> with
  \<open>2 powi e \<le> x < 2 powi (e + 1)\<close>, found by halving or doubling \<open>x\<close> in at most \<open>k\<close>
  steps. The exact results of the operations on doubles have exponents between -2148
  and 2098.\<close>

fun scale_exp :: "nat \<Rightarrow> real \<Rightarrow> int \<Rightarrow> int" where
  "scale_exp 0 x e = e"
| "scale_exp (Suc k) x e =
     (if 2 \<le> x then scale_exp k (x / 2) (e + 1)
      else if x < 1 then scale_exp k (x * 2) (e - 1) else e)"

definition binary_exponent :: "real \<Rightarrow> int" where
  "binary_exponent x = scale_exp 2200 \<bar>x\<bar> 0"

definition ieee_round :: "real \<Rightarrow> jsnum" where
  "ieee_round x =
     (if x = 0 then Num 0
      else
        (let e = binary_exponent x;
             u = 2 powi (max e (- 1022) - 52);
             n = round_even (x / u)
         in if 1024 \<le> e \<or> (e = 1023 \<and> 2 ^ 53 \<le> \<bar>n\<bar>) then inf_of_sign x
            else Num (of_int n * u)))"

text \<open>\<open>Math.sqrt\<close> as the engines compute it, the real square root rounded in the same
  way.\<close>

definition ieee_sqrt :: "jsnum \<Rightarrow> jsnum" where
  "ieee_sqrt x = (case js_sqrt x of Num a \<Rightarrow> ieee_round a | y \<Rightarrow> y)"

text \<open>The runtime of the examples, with the arithmetic of doubles and a date of a third
  month.\<close>

definition three_months_newDate :: "jsval \<Rightarrow> (int \<times> int \<times> int) option" where
  "three_months_newDate v =
     (if v = Str ''2025-02-10'' then Some (2025, 1, 10) else sample_newDate v)"

definition ieee_runtime :: "(int \<times> int \<times> int) option runtime" where
  "ieee_runtime =
     sample_runtime \<lparr> newDate := three_months_newDate, nearest := ieee_round,
                      mathSqrt := ieee_sqrt \<rparr>"

text \<open>
  Inputs on which the estimator is computed below, from the loaded rows on: three
  prediction rows, of December 2024, January and February 2025, with the CPU values
  \<open>x1\<close>, \<open>x2\<close>, \<open>x3\<close>; \<open>n1\<close>, \<open>n2\<close>, \<open>n3\<close> event rows of the same three days; and the
  three monthly rows \<open>correlatedData\<close> makes of them.
\<close>

definition prediction_on :: "string \<Rightarrow> real \<Rightarrow> row" where
  "prediction_on d x = empty_row(''timestamp'' := Str d, ''cpu_usage'' := Number (Num x))"

definition event_on :: "string \<Rightarrow> row" where
  "event_on d = empty_row(''timestamp'' := Str d, ''type'' := Str ''holiday'')"

definition bucket_on :: "string \<Rightarrow> string \<Rightarrow> real \<Rightarrow> nat \<Rightarrow> correlated" where
  "bucket_on k d x n = \<lparr> month = k, cpu_avg = Num x, memory_avg = Num 0,
     network_avg = Num 0, power_avg = Num 0, event_count = n, high_severity_events = 0,
     event_impact = n * 5, events = replicate n (event_on d) \<rparr>"

definition predictions_of :: "real \<Rightarrow> real \<Rightarrow> real \<Rightarrow> row list" where
  "predictions_of x1 x2 x3 =
     [prediction_on ''2024-12-03'' x1, prediction_on ''2025-01-15'' x2,
      prediction_on ''2025-02-10'' x3]"

definition events_of :: "nat \<Rightarrow> nat \<Rightarrow> nat \<Rightarrow> row list" where
  "events_of n1 n2 n3 =
     replicate n1 (event_on ''2024-12-03'') @ replicate n2 (event_on ''2025-01-15'')
     @ replicate n3 (event_on ''2025-02-10'')"

definition buckets_of :: "real \<Rightarrow> real \<Rightarrow> real \<Rightarrow> nat \<Rightarrow> nat \<Rightarrow> nat \<Rightarrow> correlated list" where
  "buckets_of x1 x2 x3 n1 n2 n3 =
     [bucket_on ''2024-12'' ''2024-12-03'' x1 n1, bucket_on ''2025-01'' ''2025-01-15'' x2 n2,
      bucket_on ''2025-02'' ''2025-02-10'' x3 n3]"

text \<open>Four doubles: the ones nearest to 0.1, 1.2 and 3.7, and 0.1 scaled by
  \<open>2 powi - 500\<close>.\<close>

definition double_0_1 :: real where
  "double_0_1 = 3602879701896397 / 2 ^ 55"

definition double_1_2 :: real where
  "double_1_2 = 5404319552844595 / 2 ^ 52"

definition double_3_7 :: real where
  "double_3_7 = 4165829655317709 / 2 ^ 50"

definition double_0_1_scaled :: real where
  "double_0_1_scaled = 3602879701896397 / 2 ^ 555"

text \<open>The monthly rows of four inputs: the average 0.1 in each month against 1, 2, 4
  events, at the scale of a percentage and scaled down; the averages 1.2, 3.7, 3.7
  against 1, 4, 4 events; and the averages 1, 2, 3 scaled by \<open>2 powi - 540\<close> against
  1, 2, 3 events.\<close>

definition rows_constant :: "correlated list" where
  "rows_constant = buckets_of double_0_1 double_0_1 double_0_1 1 2 4"

definition rows_constant_scaled :: "correlated list" where
  "rows_constant_scaled =
     buckets_of double_0_1_scaled double_0_1_scaled double_0_1_scaled 1 2 4"

definition rows_above_one :: "correlated list" where
  "rows_above_one = buckets_of double_1_2 double_3_7 double_3_7 1 4 4"

definition rows_scaled :: "correlated list" where
  "rows_scaled = buckets_of (1 / 2 ^ 540) (2 / 2 ^ 540) (3 / 2 ^ 540) 1 2 3"

subsection \<open>Notions for the daily chart data\<close>






subsection \<open>Notions for the capacity chart data\<close>

text \<open>Three sequences of random draws, a row for examples, and a point with its
  \<open>dailyInputs\<close> field blanked.\<close>

definition draws_low :: "nat \<Rightarrow> real" where
  "draws_low i = 0"





subsection \<open>A page state for examples\<close>

definition sample_app :: app where
  "sample_app = \<lparr> predictionFile = None, predictionsData = sample_rows, showFileUpload = True,
                  toasts = [] \<rparr>"

section \<open>Properties of the correlation estimator\<close>

lemma js_add_assoc: "js_add (js_add a b) c = js_add a (js_add b c)"
  by (cases a; cases b; cases c) auto

lemma js_add_commute: "js_add a b = js_add b a"
  by (cases a; cases b) auto

lemma js_add_zero [simp]: "js_add a (Num 0) = a" "js_add (Num 0) a = a"
  by (cases a; simp)+

lemma foldl_js_add: "foldl js_add a xs = js_add a (js_sum xs)"
  by (induction xs arbitrary: a) (simp_all add: js_add_assoc)

lemma rounded_exact: "nearest rt = Num \<Longrightarrow> rounded rt x = x"
  by (cases x) simp_all

lemma exact_ops:
  assumes "exact_arithmetic rt"
  shows "num_add rt = js_add" "num_sub rt = js_sub" "num_mul rt = js_mul" "num_div rt = js_div"
    "mathSqrt rt = js_sqrt"
  using assms
  by (simp_all add: exact_arithmetic_def fun_eq_iff num_add_def num_sub_def num_mul_def
      num_div_def rounded_exact)

lemma corr_step_simp:
  "corr_step rt mm me (a, b, c) (x, y) =
     (num_add rt a (num_mul rt (num_sub rt x mm) (num_sub rt y me)),
      num_add rt b (num_mul rt (num_sub rt x mm) (num_sub rt x mm)),
      num_add rt c (num_mul rt (num_sub rt y me) (num_sub rt y me)))"
  by (simp add: corr_step_def Let_def)

lemma correlation_loop_foldl:
  "n = length mv \<Longrightarrow> n = length ev \<Longrightarrow> i \<le> n \<Longrightarrow>
   correlation_loop rt mv ev mm me n i acc = foldl (corr_step rt mm me) acc (drop i (zip mv ev))"
proof (induction rt mv ev mm me n i acc rule: correlation_loop.induct)
  case (1 rt mv ev mm me n i numerator denomMetric denomEvents)
  let ?acc = "(numerator, denomMetric, denomEvents)"
  show ?case
  proof (cases "i < n")
    case True
    let ?acc' = "corr_step rt mm me ?acc (mv ! i, ev ! i)"
    have d: "drop i (zip mv ev) = (mv ! i, ev ! i) # drop (Suc i) (zip mv ev)"
      using True 1(2,3) by (simp add: Cons_nth_drop_Suc [symmetric])
    have u: "correlation_loop rt mv ev mm me n i ?acc =
          correlation_loop rt mv ev mm me n (Suc i) ?acc'"
      using True 1(2,3)
      by (subst correlation_loop.simps) (simp add: corr_step_simp num_at_def Let_def)
    have ih: "correlation_loop rt mv ev mm me n (Suc i) ?acc' =
          foldl (corr_step rt mm me) ?acc' (drop (Suc i) (zip mv ev))"
      using 1(1)[OF True refl refl] True 1(2,3)
      by (simp add: corr_step_simp num_at_def)
    show ?thesis using u ih d by simp
  next
    case False
    then show ?thesis using 1(2,3,4) by (subst correlation_loop.simps) simp
  qed
qed

text \<open>The three accumulators of the loop are three sums, each taken from left to
  right.\<close>

lemma foldl_corr_step_sums:
  "foldl (corr_step rt mm me) (a, b, c) zs =
     (foldl (num_add rt) a (map (\<lambda>(x, y). num_mul rt (num_sub rt x mm) (num_sub rt y me)) zs),
      foldl (num_add rt) b (map (\<lambda>(x, y). num_mul rt (num_sub rt x mm) (num_sub rt x mm)) zs),
      foldl (num_add rt) c (map (\<lambda>(x, y). num_mul rt (num_sub rt y me) (num_sub rt y me)) zs))"
proof (induction zs arbitrary: a b c)
  case Nil
  show ?case by simp
next
  case (Cons z zs)
  obtain x y where z: "z = (x, y)" by (cases z)
  show ?case
    by (simp add: z corr_step_simp Cons.IH)
qed

lemma map_zip_fst: "length xs = length ys \<Longrightarrow> map (\<lambda>(x, y). f x) (zip xs ys) = map f xs"
  by (induction xs ys rule: list_induct2) simp_all

lemma map_zip_snd: "length xs = length ys \<Longrightarrow> map (\<lambda>(x, y). g y) (zip xs ys) = map g ys"
  by (induction xs ys rule: list_induct2) simp_all

lemma calculateCorrelation_computed:
  "calculateCorrelation rt filtered selectedMetric =
     (let validData = filter (\<lambda>item. num_truthy (getMetricData selectedMetric item)
                                     \<and> event_count item \<noteq> 0) filtered
      in if length validData < 2 then Num 0
         else nan_to_zero (pearson_computed rt (map (getMetricData selectedMetric) validData)
                             (map (\<lambda>item. Num (real (event_count item))) validData)))"
proof -
  define validData where "validData = filter (\<lambda>item. num_truthy (getMetricData selectedMetric item)
                                     \<and> event_count item \<noteq> 0) filtered"
  define mv where "mv = map (getMetricData selectedMetric) validData"
  define ev where "ev = map (\<lambda>item. Num (real (event_count item))) validData"
  have len: "length mv = length validData" "length ev = length validData"
    by (simp_all add: mv_def ev_def)
  have loop: "correlation_loop rt mv ev mm me (length validData) 0 (Num 0, Num 0, Num 0) =
      (num_sum rt (map (\<lambda>(x, y). num_mul rt (num_sub rt x mm) (num_sub rt y me)) (zip mv ev)),
       num_sum rt (map (\<lambda>x. num_mul rt (num_sub rt x mm) (num_sub rt x mm)) mv),
       num_sum rt (map (\<lambda>y. num_mul rt (num_sub rt y me) (num_sub rt y me)) ev))" for mm me
    using len
    by (simp add: correlation_loop_foldl foldl_corr_step_sums map_zip_fst map_zip_snd num_sum_def)
  show ?thesis
    unfolding calculateCorrelation_def validData_def [symmetric] Let_def
    unfolding mv_def [symmetric] ev_def [symmetric]
    by (simp add: loop pearson_computed_def num_mean_def num_sum_def nan_to_zero_def Let_def len)
qed

lemma num_sum_exact: "exact_arithmetic rt \<Longrightarrow> num_sum rt xs = js_sum xs"
  by (simp add: num_sum_def exact_ops foldl_js_add)

lemma pearson_computed_exact:
  "exact_arithmetic rt \<Longrightarrow> pearson_computed rt xs ys = pearson xs ys"
  by (simp add: pearson_computed_def pearson_def num_mean_def js_mean_def num_sum_exact exact_ops)

lemma calculateCorrelation_pearson:
  "exact_arithmetic rt \<Longrightarrow>
   calculateCorrelation rt filtered selectedMetric =
     (let validData = filter (\<lambda>item. num_truthy (getMetricData selectedMetric item)
                                     \<and> event_count item \<noteq> 0) filtered
      in if length validData < 2 then Num 0
         else nan_to_zero (pearson (map (getMetricData selectedMetric) validData)
                                   (map (\<lambda>item. Num (real (event_count item))) validData)))"
  by (simp add: calculateCorrelation_computed pearson_computed_exact Let_def)

lemma cs_step:
  fixes P A B u v :: real
  assumes "P\<^sup>2 \<le> A * B" "0 \<le> A" "0 \<le> B"
  shows "(P + u * v)\<^sup>2 \<le> (A + u * u) * (B + v * v)"
proof -
  let ?S = "A * (v * v) + B * (u * u)"
  let ?T = "2 * P * (u * v)"
  have S0: "0 \<le> ?S" using assms by simp
  have "?T\<^sup>2 = 4 * P\<^sup>2 * (u * v)\<^sup>2" by (simp add: power2_eq_square)
  also have "\<dots> \<le> 4 * (A * B) * (u * v)\<^sup>2"
    using assms(1) by (simp add: mult_right_mono)
  also have "\<dots> \<le> 4 * (A * B) * (u * v)\<^sup>2 + (A * (v * v) - B * (u * u))\<^sup>2"
    by simp
  also have "\<dots> = ?S\<^sup>2" by (simp add: power2_eq_square algebra_simps)
  finally have "?T\<^sup>2 \<le> ?S\<^sup>2" .
  then have "?T \<le> ?S" using S0 by (rule power2_le_imp_le)
  moreover have "(P + u * v)\<^sup>2 = P\<^sup>2 + ?T + (u * v)\<^sup>2"
    by (simp add: power2_eq_square algebra_simps)
  moreover have "(A + u * u) * (B + v * v) = A * B + ?S + (u * v)\<^sup>2"
    by (simp add: power2_eq_square algebra_simps)
  ultimately show ?thesis using assms(1) by simp
qed

lemma cs_list:
  fixes f g :: "'a \<Rightarrow> real"
  shows "(\<Sum>z\<leftarrow>zs. f z * g z)\<^sup>2 \<le> (\<Sum>z\<leftarrow>zs. f z * f z) * (\<Sum>z\<leftarrow>zs. g z * g z)
         \<and> 0 \<le> (\<Sum>z\<leftarrow>zs. f z * f z) \<and> 0 \<le> (\<Sum>z\<leftarrow>zs. g z * g z)"
proof (induction zs)
  case Nil
  show ?case by simp
next
  case (Cons z zs)
  let ?P = "\<Sum>z\<leftarrow>zs. f z * g z" and ?A = "\<Sum>z\<leftarrow>zs. f z * f z" and ?B = "\<Sum>z\<leftarrow>zs. g z * g z"
  have "(?P + f z * g z)\<^sup>2 \<le> (?A + f z * f z) * (?B + g z * g z)"
    using Cons.IH by (intro cs_step) simp_all
  moreover have "0 \<le> ?A + f z * f z" "0 \<le> ?B + g z * g z"
    using Cons.IH by simp_all
  ultimately show ?case by (simp add: add.commute)
qed

lemma map_zip_fst': "length xs = length ys \<Longrightarrow> map (\<lambda>z. f (fst z)) (zip xs ys) = map f xs"
  by (induction xs ys rule: list_induct2) simp_all

lemma map_zip_snd': "length xs = length ys \<Longrightarrow> map (\<lambda>z. g (snd z)) (zip xs ys) = map g ys"
  by (induction xs ys rule: list_induct2) simp_all

lemma covar_sq_le: 
  assumes "length us = length vs"
  shows "(covar us vs)\<^sup>2 \<le> sqdev us * sqdev vs"
proof -
  let ?f = "\<lambda>z. fst z - rmean us" and ?g = "\<lambda>z. snd z - rmean vs"
  have 1: "covar us vs = (\<Sum>z\<leftarrow>zip us vs. ?f z * ?g z)"
    unfolding covar_def by (simp add: split_def)
  have 2: "sqdev us = (\<Sum>z\<leftarrow>zip us vs. ?f z * ?f z)"
    unfolding sqdev_def
    using map_zip_fst' [OF assms, of "\<lambda>u. (u - rmean us) * (u - rmean us)"] by simp
  have 3: "sqdev vs = (\<Sum>z\<leftarrow>zip us vs. ?g z * ?g z)"
    unfolding sqdev_def
    using map_zip_snd' [OF assms, of "\<lambda>v. (v - rmean vs) * (v - rmean vs)"] by simp
  show ?thesis unfolding 1 2 3 using cs_list [of ?f ?g "zip us vs"] by blast
qed

lemma sqdev_nonneg: "0 \<le> sqdev us"
  unfolding sqdev_def by (rule sum_list_nonneg) auto

lemma js_sum_Num: "js_sum (map (\<lambda>z. Num (f z)) zs) = Num (\<Sum>z\<leftarrow>zs. f z)"
  by (induction zs) simp_all

lemma js_mean_Num: "us \<noteq> [] \<Longrightarrow> js_mean (map Num us) = Num (rmean us)"
  using js_sum_Num [of "\<lambda>u. u" us] by (simp add: js_mean_def rmean_def)

lemma pearson_finite:
  assumes "length us = length vs" "us \<noteq> []"
  shows "pearson (map Num us) (map Num vs) =
           js_div (Num (covar us vs)) (Num (sqrt (sqdev us * sqdev vs)))"
proof -
  have vs: "vs \<noteq> []" using assms by auto
  have nonneg: "\<not> sqdev us * sqdev vs < 0"
    using sqdev_nonneg [of us] sqdev_nonneg [of vs] by (simp add: not_less)
  have z: "zip (map Num us) (map Num vs) = map (\<lambda>(u, v). (Num u, Num v)) (zip us vs)"
    by (simp add: zip_map_map)
  show ?thesis
    unfolding pearson_def Let_def js_mean_Num [OF assms(2)] js_mean_Num [OF vs] z
    using nonneg
    by (simp add: o_def split_def js_sub_def js_sum_Num covar_def sqdev_def)
qed

lemma nan_to_zero_pearson_finite:
  assumes "length us = length vs" "us \<noteq> []"
  shows "nan_to_zero (pearson (map Num us) (map Num vs)) =
           (if sqdev us * sqdev vs = 0 then Num 0
            else Num (covar us vs / sqrt (sqdev us * sqdev vs)))"
proof (cases "sqdev us * sqdev vs = 0")
  case True
  have "(covar us vs)\<^sup>2 \<le> 0" using covar_sq_le [OF assms(1)] unfolding True .
  then have "covar us vs = 0" by simp
  then show ?thesis using True
    by (simp add: pearson_finite [OF assms] nan_to_zero_def inf_of_sign_def)
next
  case False
  then show ?thesis
    by (simp add: pearson_finite [OF assms] nan_to_zero_def)
qed

lemma pearson_ratio_bounds:
  assumes "length us = length vs" "sqdev us * sqdev vs \<noteq> 0"
  shows "\<bar>covar us vs / sqrt (sqdev us * sqdev vs)\<bar> \<le> 1"
proof -
  have pos: "0 < sqdev us * sqdev vs"
    using assms(2) sqdev_nonneg [of us] sqdev_nonneg [of vs]
    by (metis less_eq_real_def mult_nonneg_nonneg)
  have "\<bar>covar us vs\<bar> \<le> sqrt (sqdev us * sqdev vs)"
    using covar_sq_le [OF assms(1)] by (simp add: real_le_rsqrt)
  then show ?thesis using pos by simp
qed

lemma js_sum_NaN: "NaN \<in> set zs \<Longrightarrow> js_sum zs = NaN"
proof (induction zs)
  case Nil
  then show ?case by simp
next
  case (Cons z zs)
  show ?case
  proof (cases "z = NaN")
    case True
    then show ?thesis by simp
  next
    case False
    then have "js_sum zs = NaN" using Cons by simp
    then show ?thesis by (cases z) simp_all
  qed
qed

lemma js_sum_nonfinite:
  "x \<in> set xs \<Longrightarrow> \<not> finite_num x \<Longrightarrow> js_sum xs = x \<or> js_sum xs = NaN"
proof (induction xs)
  case Nil
  then show ?case by simp
next
  case (Cons a xs)
  show ?case
  proof (cases "x = a")
    case True
    then show ?thesis using Cons.prems(2) by (cases a; cases "js_sum xs") simp_all
  next
    case False
    then have "js_sum xs = x \<or> js_sum xs = NaN" using Cons by simp
    then show ?thesis using Cons.prems(2) by (cases a; cases x) auto
  qed
qed

lemma js_sub_mean_nonfinite:
  assumes "x \<in> set xs" "\<not> finite_num x"
  shows "js_sub x (js_mean xs) = NaN"
proof -
  have n: "0 < real (length xs)" using assms(1) by (cases xs) simp_all
  have "js_sum xs = x \<or> js_sum xs = NaN" using assms by (rule js_sum_nonfinite)
  then have "js_mean xs = x \<or> js_mean xs = NaN"
    using assms(2) n unfolding js_mean_def by (cases x) auto
  then show ?thesis using assms(2) by (cases x) (auto simp: js_sub_def)
qed

lemma sq_sum_nonfinite:
  assumes "x \<in> set xs" "\<not> finite_num x"
  shows "js_sum (map (\<lambda>x. js_mul (js_sub x (js_mean xs)) (js_sub x (js_mean xs))) xs) = NaN"
proof -
  have "js_mul (js_sub x (js_mean xs)) (js_sub x (js_mean xs)) = NaN"
    by (simp add: js_sub_mean_nonfinite [OF assms])
  then have "NaN \<in> set (map (\<lambda>x. js_mul (js_sub x (js_mean xs)) (js_sub x (js_mean xs))) xs)"
    using assms(1) by (metis (no_types, lifting) image_eqI list.set_map)
  then show ?thesis by (rule js_sum_NaN)
qed

lemma js_mul_NaN_right [simp]: "js_mul a NaN = NaN"
  by (cases a) simp_all

lemma js_div_NaN_right [simp]: "js_div a NaN = NaN"
  by (cases a) simp_all

lemma pearson_nonfinite:
  assumes "(\<exists>x\<in>set xs. \<not> finite_num x) \<or> (\<exists>y\<in>set ys. \<not> finite_num y)"
  shows "nan_to_zero (pearson xs ys) = Num 0"
  using assms
  by (auto simp: pearson_def Let_def sq_sum_nonfinite nan_to_zero_def)

lemma finite_list: "\<forall>x\<in>set xs. finite_num x \<Longrightarrow> \<exists>us. xs = map Num us"
proof (induction xs)
  case Nil
  then show ?case by simp
next
  case (Cons x xs)
  then obtain us where "xs = map Num us" by auto
  moreover obtain u where "x = Num u" using Cons.prems by (cases x) simp_all
  ultimately have "x # xs = map Num (u # us)" by simp
  then show ?case by (rule exI)
qed

lemma pearson_bounded:
  assumes "length xs = length ys" "xs \<noteq> []"
  shows "\<exists>r. nan_to_zero (pearson xs ys) = Num r \<and> - 1 \<le> r \<and> r \<le> 1"
proof (cases "(\<forall>x\<in>set xs. finite_num x) \<and> (\<forall>y\<in>set ys. finite_num y)")
  case True
  then obtain us vs where uv: "xs = map Num us" "ys = map Num vs"
    using finite_list by blast
  have len: "length us = length vs" "us \<noteq> []" using assms uv by auto
  show ?thesis
  proof (cases "sqdev us * sqdev vs = 0")
    case True
    then show ?thesis by (simp add: uv nan_to_zero_pearson_finite [OF len])
  next
    case False
    define q where "q = covar us vs / sqrt (sqdev us * sqdev vs)"
    have "\<bar>q\<bar> \<le> 1" unfolding q_def by (rule pearson_ratio_bounds [OF len(1) False])
    then have "- 1 \<le> q \<and> q \<le> 1" by linarith
    moreover have "nan_to_zero (pearson xs ys) = Num q"
      using False by (simp add: uv nan_to_zero_pearson_finite [OF len] q_def)
    ultimately show ?thesis by blast
  qed
next
  case False
  then have "nan_to_zero (pearson xs ys) = Num 0" by (intro pearson_nonfinite) blast
  then show ?thesis by simp
qed

lemma num_truthy_iff: "num_truthy x \<longleftrightarrow> x \<noteq> Num 0 \<and> x \<noteq> NaN"
  by (cases x) simp_all

lemma calculateCorrelation_valid_rows_computed:
  "calculateCorrelation rt rows metric =
     (if length (valid_rows metric rows) < 2 then Num 0
      else nan_to_zero (pearson_computed rt (metric_seq metric (valid_rows metric rows))
                                            (event_seq (valid_rows metric rows))))"
  by (simp add: calculateCorrelation_computed valid_rows_def metric_seq_def event_seq_def
      num_truthy_iff Let_def conj_assoc)

lemma calculateCorrelation_valid_rows:
  "exact_arithmetic rt \<Longrightarrow>
   calculateCorrelation rt rows metric =
     (if length (valid_rows metric rows) < 2 then Num 0
      else nan_to_zero (pearson (metric_seq metric (valid_rows metric rows))
                                (event_seq (valid_rows metric rows))))"
  by (simp add: calculateCorrelation_valid_rows_computed pearson_computed_exact)

lemma zero_variance_Num:
  "us \<noteq> [] \<Longrightarrow> zero_variance (map Num us) \<longleftrightarrow> sqdev us = 0"
  by (simp add: zero_variance_def js_mean_Num o_def js_sub_def js_sum_Num sqdev_def)

lemma zero_variance_finite:
  assumes "zero_variance xs" "x \<in> set xs"
  shows "finite_num x"
proof (rule ccontr)
  assume "\<not> finite_num x"
  then have "js_sum (map (\<lambda>x. js_mul (js_sub x (js_mean xs)) (js_sub x (js_mean xs))) xs) = NaN"
    using assms(2) by (intro sq_sum_nonfinite)
  then show False using assms(1) by (simp add: zero_variance_def)
qed

lemma sqdev_zero_iff:
  "us \<noteq> [] \<Longrightarrow> sqdev us = 0 \<longleftrightarrow> (\<forall>u\<in>set us. u = rmean us)"
proof -
  have "sqdev us = 0 \<longleftrightarrow> (\<forall>t\<in>set (map (\<lambda>u. (u - rmean us) * (u - rmean us)) us). t = 0)"
    unfolding sqdev_def by (rule sum_list_nonneg_eq_0_iff) auto
  then show ?thesis by auto
qed

lemma rmean_const:
  assumes "us \<noteq> []" "\<forall>u\<in>set us. u = c"
  shows "rmean us = c"
proof -
  have "us = replicate (length us) c"
    using assms(2) by (simp add: replicate_length_same)
  then have "sum_list us = real (length us) * c"
    by (metis sum_list_replicate)
  then show ?thesis using assms(1) by (simp add: rmean_def)
qed

lemma zero_variance_iff_constant:
  "zero_variance xs \<longleftrightarrow> (\<exists>c. \<forall>x\<in>set xs. x = Num c)"
proof
  assume zv: "zero_variance xs"
  then have "\<forall>x\<in>set xs. finite_num x" using zero_variance_finite by blast
  then obtain us where us: "xs = map Num us" using finite_list by blast
  show "\<exists>c. \<forall>x\<in>set xs. x = Num c"
  proof (cases "us = []")
    case True
    then show ?thesis using us by simp
  next
    case False
    then have "\<forall>u\<in>set us. u = rmean us"
      using zv us zero_variance_Num sqdev_zero_iff by blast
    then show ?thesis using us by auto
  qed
next
  assume "\<exists>c. \<forall>x\<in>set xs. x = Num c"
  then obtain c where c: "\<forall>x\<in>set xs. x = Num c" by blast
  then have "\<forall>x\<in>set xs. finite_num x" by auto
  then obtain us where us: "xs = map Num us" using finite_list by blast
  show "zero_variance xs"
  proof (cases "us = []")
    case True
    then show ?thesis using us by (simp add: zero_variance_def)
  next
    case False
    have "\<forall>u\<in>set us. u = c" using c us by auto
    then have "\<forall>u\<in>set us. u = rmean us" using rmean_const [OF False] by auto
    then show ?thesis using us False zero_variance_Num sqdev_zero_iff by blast
  qed
qed

lemma zero_variance_filter: "zero_variance (map f rows) \<Longrightarrow> zero_variance (map f (filter P rows))"
  unfolding zero_variance_iff_constant by auto

lemma pearson_zero_variance:
  assumes "length xs = length ys" "xs \<noteq> []" "zero_variance xs \<or> zero_variance ys"
  shows "nan_to_zero (pearson xs ys) = Num 0"
proof (cases "(\<forall>x\<in>set xs. finite_num x) \<and> (\<forall>y\<in>set ys. finite_num y)")
  case True
  then obtain us vs where uv: "xs = map Num us" "ys = map Num vs"
    using finite_list by blast
  have len: "length us = length vs" "us \<noteq> []" "vs \<noteq> []" using assms(1,2) uv by auto
  have "sqdev us = 0 \<or> sqdev vs = 0"
    using assms(3) uv zero_variance_Num len by blast
  then show ?thesis by (auto simp: uv nan_to_zero_pearson_finite [OF len(1,2)])
next
  case False
  then show ?thesis by (intro pearson_nonfinite) blast
qed


lemma valid_rows_idem: "valid_rows metric (valid_rows metric rows) = valid_rows metric rows"
  by (simp add: valid_rows_def)

lemma sample_exact: "exact_arithmetic sample_runtime"
  by (simp add: exact_arithmetic_def sample_runtime_def)

text \<open>
  Claim C10. For every list of monthly rows, the estimator computes the coefficient only
  over the rows whose selected metric average and event count are both nonzero: rows
  where either is zero are dropped before the fewer-than-two check and before the Pearson
  formula, so the result is that of the formula on the remaining rows and does not change
  when the dropped rows are removed from the input.
\<close>

theorem calculateCorrelation_excludes_zero_rows:
  "calculateCorrelation rt rows metric =
     (if length (valid_rows metric rows) < 2 then Num 0
      else nan_to_zero (pearson_computed rt (metric_seq metric (valid_rows metric rows))
                                            (event_seq (valid_rows metric rows))))
   \<and> calculateCorrelation rt rows metric = calculateCorrelation rt (valid_rows metric rows) metric"
  by (simp add: calculateCorrelation_valid_rows_computed valid_rows_idem)

theorem calculateCorrelation_excludes_zero_rows_witness:
  "calculateCorrelation sample_runtime [month_row 0 4, month_row 1 1, month_row 7 0,
      month_row 2 2, month_row 3 3] ''cpu'' = Num 1
   \<and> valid_rows ''cpu'' [month_row 0 4, month_row 1 1, month_row 7 0, month_row 2 2,
      month_row 3 3] = [month_row 1 1, month_row 2 2, month_row 3 3]"
  using calculateCorrelation_excludes_zero_rows
    [of sample_runtime
        "[month_row 0 4, month_row 1 1, month_row 7 0, month_row 2 2, month_row 3 3]" "''cpu''"]
  by (simp add: valid_rows_def metric_seq_def event_seq_def month_row_def getMetricData_def
      pearson_computed_exact [OF sample_exact] pearson_def js_mean_def js_sub_def
      nan_to_zero_def Let_def)

text \<open>With fewer than two rows left the result is 0, and it is never NaN, whatever the
  rounding.\<close>

lemma calculateCorrelation_few_points:
  "length (valid_rows metric rows) < 2 \<Longrightarrow> calculateCorrelation rt rows metric = Num 0"
  by (simp add: calculateCorrelation_valid_rows_computed)

lemma calculateCorrelation_not_NaN: "\<not> isNaN (calculateCorrelation rt rows metric)"
  by (simp add: calculateCorrelation_valid_rows_computed nan_to_zero_def)

lemma calculateCorrelation_degenerate_exact:
  assumes "exact_arithmetic rt"
    and "degenerate (metric_seq metric rows) (event_seq rows)
         \<or> degenerate (metric_seq metric (valid_rows metric rows)) (event_seq (valid_rows metric rows))"
  shows "calculateCorrelation rt rows metric = Num 0"
proof -
  let ?v = "valid_rows metric rows"
  have filt: "length ?v \<le> length rows" by (simp add: valid_rows_def)
  have zm: "zero_variance (metric_seq metric rows) \<Longrightarrow> zero_variance (metric_seq metric ?v)"
    unfolding metric_seq_def valid_rows_def by (rule zero_variance_filter)
  have ze: "zero_variance (event_seq rows) \<Longrightarrow> zero_variance (event_seq ?v)"
    unfolding event_seq_def valid_rows_def by (rule zero_variance_filter)
  have ln: "length (metric_seq metric ?v) \<le> length (metric_seq metric rows)"
           "length (event_seq ?v) \<le> length (event_seq rows)"
    using filt by (simp_all add: metric_seq_def event_seq_def)
  have pre: "degenerate (metric_seq metric rows) (event_seq rows) \<Longrightarrow>
             degenerate (metric_seq metric ?v) (event_seq ?v)"
    unfolding degenerate_def using zm ze ln by linarith
  from assms(2) pre have d: "degenerate (metric_seq metric ?v) (event_seq ?v)" by blast
  show ?thesis
  proof (cases "length ?v < 2")
    case True
    then show ?thesis by (rule calculateCorrelation_few_points)
  next
    case False
    then have zv: "zero_variance (metric_seq metric ?v) \<or> zero_variance (event_seq ?v)"
      using d by (simp add: degenerate_def metric_seq_def event_seq_def)
    have "nan_to_zero (pearson (metric_seq metric ?v) (event_seq ?v)) = Num 0"
      using False zv by (intro pearson_zero_variance) (auto simp: metric_seq_def event_seq_def)
    then show ?thesis using False by (simp add: calculateCorrelation_valid_rows [OF assms(1)])
  qed
qed

lemma calculateCorrelation_bounded_exact:
  assumes "exact_arithmetic rt"
  shows "\<exists>r. calculateCorrelation rt rows metric = Num r \<and> - 1 \<le> r \<and> r \<le> 1"
proof (cases "length (valid_rows metric rows) < 2")
  case True
  then show ?thesis by (simp add: calculateCorrelation_few_points)
next
  case False
  then have "\<exists>r. nan_to_zero (pearson (metric_seq metric (valid_rows metric rows))
                 (event_seq (valid_rows metric rows))) = Num r \<and> - 1 \<le> r \<and> r \<le> 1"
    by (intro pearson_bounded) (auto simp: metric_seq_def event_seq_def)
  then show ?thesis using False by (simp add: calculateCorrelation_valid_rows [OF assms])
qed

subsection \<open>Rounding that cannot move the result from 0\<close>

lemma num_add_zero_or_NaN:
  "nearest rt 0 = Num 0 \<Longrightarrow> zero_or_NaN a \<Longrightarrow> zero_or_NaN b \<Longrightarrow> zero_or_NaN (num_add rt a b)"
  by (auto simp: zero_or_NaN_def num_add_def)

lemma foldl_zero_or_NaN:
  "nearest rt 0 = Num 0 \<Longrightarrow> zero_or_NaN a \<Longrightarrow> \<forall>t\<in>set ts. zero_or_NaN t \<Longrightarrow>
   zero_or_NaN (foldl (num_add rt) a ts)"
  by (induction ts arbitrary: a) (simp_all add: num_add_zero_or_NaN)

lemma num_mul_zero_left: "nearest rt 0 = Num 0 \<Longrightarrow> zero_or_NaN (num_mul rt (Num 0) b)"
  by (cases b) (simp_all add: zero_or_NaN_def num_mul_def inf_of_sign_def)

lemma num_mul_zero_right: "nearest rt 0 = Num 0 \<Longrightarrow> zero_or_NaN (num_mul rt a (Num 0))"
  by (cases a) (simp_all add: zero_or_NaN_def num_mul_def inf_of_sign_def)

lemma num_div_zero_or_NaN:
  "nearest rt 0 = Num 0 \<Longrightarrow> zero_or_NaN a \<Longrightarrow> zero_or_NaN (num_div rt a s)"
  by (cases s) (auto simp: zero_or_NaN_def num_div_def inf_of_sign_def)

lemma nan_to_zero_zero_or_NaN: "zero_or_NaN r \<Longrightarrow> nan_to_zero r = Num 0"
  by (auto simp: zero_or_NaN_def nan_to_zero_def)

text \<open>When the deviations of one sequence are all computed as 0, every product in the
  numerator is 0 or NaN, so is their sum, and so is the quotient, whatever the
  denominator: the guard then leaves 0.\<close>

lemma pearson_computed_no_deviation:
  assumes z: "nearest rt 0 = Num 0"
    and d: "no_deviation rt xs \<or> no_deviation rt ys"
  shows "nan_to_zero (pearson_computed rt xs ys) = Num 0"
proof -
  let ?mx = "num_mean rt xs" and ?my = "num_mean rt ys"
  let ?ts = "map (\<lambda>(x, y). num_mul rt (num_sub rt x ?mx) (num_sub rt y ?my)) (zip xs ys)"
  have "\<forall>t\<in>set ?ts. zero_or_NaN t"
  proof
    fix t
    assume "t \<in> set ?ts"
    then obtain x y where xy: "(x, y) \<in> set (zip xs ys)"
      and t: "t = num_mul rt (num_sub rt x ?mx) (num_sub rt y ?my)"
      by auto
    from xy have mem: "x \<in> set xs" "y \<in> set ys"
      by (auto dest: set_zip_leftD set_zip_rightD)
    from d show "zero_or_NaN t"
    proof
      assume "no_deviation rt xs"
      with mem have "num_sub rt x ?mx = Num 0" by (simp add: no_deviation_def list_all_iff)
      with t z show ?thesis by (simp add: num_mul_zero_left)
    next
      assume "no_deviation rt ys"
      with mem have "num_sub rt y ?my = Num 0" by (simp add: no_deviation_def list_all_iff)
      with t z show ?thesis by (simp add: num_mul_zero_right)
    qed
  qed
  with z have "zero_or_NaN (num_sum rt ?ts)"
    unfolding num_sum_def by (intro foldl_zero_or_NaN) (simp_all add: zero_or_NaN_def)
  with z have "zero_or_NaN (pearson_computed rt xs ys)"
    unfolding pearson_computed_def Let_def by (rule num_div_zero_or_NaN)
  then show ?thesis by (rule nan_to_zero_zero_or_NaN)
qed

lemma calculateCorrelation_no_deviation:
  assumes "nearest rt 0 = Num 0"
    and "no_deviation rt (metric_seq metric (valid_rows metric rows))
         \<or> no_deviation rt (event_seq (valid_rows metric rows))"
  shows "calculateCorrelation rt rows metric = Num 0"
  using assms
  by (simp add: calculateCorrelation_valid_rows_computed pearson_computed_no_deviation)

subsection \<open>The estimator on doubles\<close>

text \<open>The exponent search finds the exponent of whatever lies between two consecutive
  powers of two, and \<open>round_even\<close> finds the integer within a half.\<close>

lemma two_powi_less_exp: "(2::real) powi a < 2 powi b \<Longrightarrow> a < b"
proof (rule ccontr)
  assume l: "(2::real) powi a < 2 powi b" and "\<not> a < b"
  then have "b \<le> a" by simp
  then have "(2::real) powi b \<le> 2 powi a" by (rule power_int_increasing) simp
  with l show False by simp
qed

lemma scale_exp_bracket:
  "2 powi e \<le> x \<Longrightarrow> x < 2 powi (e + 1) \<Longrightarrow> \<bar>e\<bar> \<le> int k \<Longrightarrow> scale_exp k x e0 = e0 + e"
proof (induction k arbitrary: x e e0)
  case 0
  then show ?case by simp
next
  case (Suc k)
  show ?case
  proof (cases "2 \<le> x")
    case True
    with Suc.prems(2) have "(2::real) powi 1 < 2 powi (e + 1)" by simp
    then have "1 < e + 1" by (rule two_powi_less_exp)
    then have e: "1 \<le> e" by simp
    have a: "2 powi (e - 1) \<le> x / 2"
      using Suc.prems(1) by (simp add: power_int_diff)
    have b: "x / 2 < 2 powi (e - 1 + 1)"
      using Suc.prems(2) by (simp add: power_int_add)
    have "scale_exp k (x / 2) (e0 + 1) = e0 + 1 + (e - 1)"
      using a b e Suc.prems(3) by (intro Suc.IH) simp_all
    with True show ?thesis by simp
  next
    case False
    show ?thesis
    proof (cases "x < 1")
      case True
      with Suc.prems(1) have "(2::real) powi e < 2 powi 0" by simp
      then have e: "e < 0" by (rule two_powi_less_exp)
      have a: "2 powi (e + 1) \<le> x * 2"
        using Suc.prems(1) by (simp add: power_int_add)
      have b: "x * 2 < 2 powi (e + 1 + 1)"
        using Suc.prems(2) by (simp add: power_int_add)
      have "scale_exp k (x * 2) (e0 - 1) = e0 - 1 + (e + 1)"
        using a b e Suc.prems(3) by (intro Suc.IH) simp_all
      with True False show ?thesis by simp
    next
      case nl: False
      from False Suc.prems(1) have "(2::real) powi e < 2 powi 1" by simp
      then have "e < 1" by (rule two_powi_less_exp)
      moreover from nl Suc.prems(2) have "(2::real) powi 0 < 2 powi (e + 1)" by simp
      then have "0 < e + 1" by (rule two_powi_less_exp)
      ultimately have "e = 0" by simp
      with False nl show ?thesis by simp
    qed
  qed
qed

lemma round_even_near:
  "of_int n - 1 / 2 < x \<Longrightarrow> x < of_int n + 1 / 2 \<Longrightarrow> round_even x = n"
proof -
  assume a: "of_int n - 1 / 2 < x" and b: "x < of_int n + 1 / 2"
  show ?thesis
  proof (cases "of_int n \<le> x")
    case True
    then have f: "\<lfloor>x\<rfloor> = n" using b by (intro floor_unique) simp_all
    then show ?thesis using b by (simp add: round_even_def Let_def)
  next
    case False
    then have f: "\<lfloor>x\<rfloor> = n - 1" using a by (intro floor_unique) simp_all
    then show ?thesis using a False by (simp add: round_even_def Let_def)
  qed
qed

text \<open>The rounded square root of \<open>y\<close> is the multiple \<open>n * 2 powi (e - 52)\<close> once the
  squares of the two powers of two around it, and of the two midpoints around it,
  enclose \<open>y\<close>.\<close>

lemma ieee_round_sqrt:
  assumes y: "0 < y"
    and e: "- 1022 \<le> e" "e \<le> 1022"
    and lo: "(2 powi e)\<^sup>2 \<le> y" and hi: "y < (2 powi (e + 1))\<^sup>2"
    and n: "0 < n"
    and below: "((of_int n - 1 / 2) * 2 powi (e - 52))\<^sup>2 < y"
    and above: "y < ((of_int n + 1 / 2) * 2 powi (e - 52))\<^sup>2"
  shows "ieee_round (sqrt y) = Num (of_int n * 2 powi (e - 52))"
proof -
  have pos: "0 < (2::real) powi k" for k by simp
  have "2 powi e \<le> sqrt y"
    using lo pos [of e] by (simp add: real_le_rsqrt)
  moreover have "sqrt y < 2 powi (e + 1)"
    using hi pos [of "e + 1"] y by (intro real_less_lsqrt) simp_all
  ultimately have "scale_exp 2200 (sqrt y) 0 = 0 + e"
    using e by (intro scale_exp_bracket) simp_all
  then have be: "binary_exponent (sqrt y) = e"
    using y by (simp add: binary_exponent_def)
  have n2: "0 \<le> (of_int n - 1 / 2) * (2::real) powi (e - 52)"
    using n by simp
  have "(of_int n - 1 / 2) * 2 powi (e - 52) < sqrt y"
    using below n2 by (intro real_less_rsqrt) simp_all
  then have a: "of_int n - 1 / 2 < sqrt y / 2 powi (e - 52)"
    by (simp add: pos_less_divide_eq)
  have "sqrt y < (of_int n + 1 / 2) * 2 powi (e - 52)"
    using above n y by (intro real_less_lsqrt) simp_all
  then have b: "sqrt y / 2 powi (e - 52) < of_int n + 1 / 2"
    by (simp add: pos_divide_less_eq)
  have "round_even (sqrt y / 2 powi (e - 52)) = n"
    using a b by (rule round_even_near)
  then show ?thesis
    using y e be by (simp add: ieee_round_def Let_def max_def)
qed

text \<open>Rounding a given rational is a computation.\<close>

lemma scale_exp_unroll:
  "scale_exp k x e =
     (if k = 0 then e
      else if 2 \<le> x then scale_exp (k - 1) (x / 2) (e + 1)
      else if x < 1 then scale_exp (k - 1) (x * 2) (e - 1) else e)"
  by (cases k) simp_all

lemma ieee_nearest: "nearest ieee_runtime = ieee_round" "mathSqrt ieee_runtime = ieee_sqrt"
  by (simp_all add: ieee_runtime_def)

text \<open>The search for the exponent, 64 steps or 8 steps at a time while the argument is
  far from 1.\<close>

lemma scale_exp_down:
  "x < 1 / 2 ^ j \<Longrightarrow> j \<le> k \<Longrightarrow> scale_exp k x e = scale_exp (k - j) (x * 2 ^ j) (e - int j)"
proof (induction j arbitrary: k x e)
  case 0
  show ?case by simp
next
  case (Suc j)
  from Suc.prems(2) obtain k' where k: "k = Suc k'" and j: "j \<le> k'" by (cases k) auto
  have "1 / 2 ^ Suc j \<le> (1::real) / 2" by (simp add: field_simps)
  then have x: "x < 1" "\<not> 2 \<le> x" using Suc.prems(1) by linarith+
  have "x * 2 < 1 / 2 ^ j" using Suc.prems(1) by (simp add: field_simps)
  then have "scale_exp k' (x * 2) (e - 1) = scale_exp (k' - j) (x * 2 * 2 ^ j) (e - 1 - int j)"
    using j by (rule Suc.IH)
  moreover have "scale_exp k x e = scale_exp k' (x * 2) (e - 1)" using x by (simp add: k)
  moreover have "k' - j = k - Suc j" "x * 2 * 2 ^ j = x * 2 ^ Suc j"
    "e - 1 - int j = e - int (Suc j)"
    by (simp_all add: k)
  ultimately show ?case by (simp only:)
qed

lemma scale_exp_up:
  "2 ^ j \<le> x \<Longrightarrow> j \<le> k \<Longrightarrow> scale_exp k x e = scale_exp (k - j) (x / 2 ^ j) (e + int j)"
proof (induction j arbitrary: k x e)
  case 0
  show ?case by simp
next
  case (Suc j)
  from Suc.prems(2) obtain k' where k: "k = Suc k'" and j: "j \<le> k'" by (cases k) auto
  have "(2::real) \<le> 2 ^ Suc j" by simp
  then have x: "2 \<le> x" using Suc.prems(1) by linarith
  have "2 ^ j \<le> x / 2" using Suc.prems(1) by simp
  then have "scale_exp k' (x / 2) (e + 1) = scale_exp (k' - j) (x / 2 / 2 ^ j) (e + 1 + int j)"
    using j by (rule Suc.IH)
  moreover have "scale_exp k x e = scale_exp k' (x / 2) (e + 1)" using x by (simp add: k)
  moreover have "k' - j = k - Suc j" "x / 2 / 2 ^ j = x / 2 ^ Suc j"
    "e + 1 + int j = e + int (Suc j)"
    by (simp_all add: k)
  ultimately show ?case by (simp only:)
qed

lemma scale_exp_near:
  "1 / 2 ^ 8 \<le> x \<Longrightarrow> x < 2 ^ 8 \<Longrightarrow>
   scale_exp k x e =
     (if k = 0 then e
      else if 2 \<le> x then scale_exp (k - 1) (x / 2) (e + 1)
      else if x < 1 then scale_exp (k - 1) (x * 2) (e - 1) else e)"
  by (rule scale_exp_unroll)

lemma scale_exp_down_8:
  "1 / 2 ^ 64 \<le> x \<Longrightarrow> x < 1 / 2 ^ 8 \<Longrightarrow> 8 \<le> k \<Longrightarrow>
   scale_exp k x e = scale_exp (k - 8) (x * 2 ^ 8) (e - 8)"
  using scale_exp_down [of x 8 k e] by simp

lemma scale_exp_down_64:
  "x < 1 / 2 ^ 64 \<Longrightarrow> 64 \<le> k \<Longrightarrow> scale_exp k x e = scale_exp (k - 64) (x * 2 ^ 64) (e - 64)"
  using scale_exp_down [of x 64 k e] by simp

lemma scale_exp_up_8:
  "2 ^ 8 \<le> x \<Longrightarrow> x < 2 ^ 64 \<Longrightarrow> 8 \<le> k \<Longrightarrow>
   scale_exp k x e = scale_exp (k - 8) (x / 2 ^ 8) (e + 8)"
  using scale_exp_up [of 8 x k e] by simp

lemma scale_exp_up_64:
  "2 ^ 64 \<le> x \<Longrightarrow> 64 \<le> k \<Longrightarrow> scale_exp k x e = scale_exp (k - 64) (x / 2 ^ 64) (e + 64)"
  using scale_exp_up [of 64 x k e] by simp

lemmas ieee_eval = num_add_def num_sub_def num_mul_def num_div_def ieee_nearest
  ieee_round_def binary_exponent_def scale_exp_near scale_exp_down_8 scale_exp_down_64
  scale_exp_up_8 scale_exp_up_64 round_even_def inf_of_sign_def power_int_minus js_sub_def

lemmas example_rows = metric_seq_def event_seq_def rows_above_one_def rows_constant_def
  rows_constant_scaled_def rows_scaled_def rows_up_def rows_down_def month_row_def
  buckets_of_def bucket_on_def double_0_1_def double_1_2_def double_3_7_def
  double_0_1_scaled_def getMetricData_def

lemma ieee_round_small: "ieee_round 2 = Num 2 \<and> ieee_round 5 = Num 5"
  by (simp add: ieee_eval)

lemma ieee_sqrt_4: "mathSqrt ieee_runtime (Num 4) = Num 2"
proof -
  have "sqrt 4 = 2" by (rule real_sqrt_unique) simp_all
  then show ?thesis by (simp add: ieee_nearest ieee_sqrt_def ieee_round_small)
qed

lemma ieee_sqrt_25: "mathSqrt ieee_runtime (Num 25) = Num 5"
proof -
  have "sqrt 25 = 5" by (rule real_sqrt_unique) simp_all
  then show ?thesis by (simp add: ieee_nearest ieee_sqrt_def ieee_round_small)
qed

lemma ieee_sqrt_0: "mathSqrt ieee_runtime (Num 0) = Num 0"
  by (simp add: ieee_nearest ieee_sqrt_def ieee_round_def)

lemma ieee_sqrt_inexact:
  "mathSqrt ieee_runtime
     (Num (7881299347898367 / 2923003274661805836407369665432566039311865085952)) =
   Num (8425463406411593 / 162259276829213363391578010288128)"
proof -
  have "ieee_round (sqrt (7881299347898367 / 2923003274661805836407369665432566039311865085952)) =
      Num (of_int 8425463406411593 * 2 powi (- 55 - 52))"
    by (rule ieee_round_sqrt) (simp_all add: power_int_minus power2_eq_square)
  then show ?thesis by (simp add: ieee_nearest ieee_sqrt_def power_int_minus)
qed

text \<open>The coefficient, computed in four steps: the means, the three sums, the square
  root, the quotient.\<close>

lemma pearson_computed_steps:
  assumes "num_mean rt xs = mx \<and> num_mean rt ys = my"
    and "num_sum rt (map (\<lambda>(x, y). num_mul rt (num_sub rt x mx) (num_sub rt y my))
                          (zip xs ys)) = c
         \<and> num_mul rt
             (num_sum rt (map (\<lambda>x. num_mul rt (num_sub rt x mx) (num_sub rt x mx)) xs))
             (num_sum rt (map (\<lambda>y. num_mul rt (num_sub rt y my) (num_sub rt y my)) ys)) = p"
    and "mathSqrt rt p = s"
    and "num_div rt c s = r"
  shows "pearson_computed rt xs ys = r"
  using assms by (simp add: pearson_computed_def Let_def)

lemma valid_examples:
  "valid_rows ''cpu'' rows_above_one = rows_above_one"
  "valid_rows ''cpu'' rows_constant = rows_constant"
  "valid_rows ''cpu'' rows_constant_scaled = rows_constant_scaled"
  "valid_rows ''cpu'' rows_scaled = rows_scaled"
  "valid_rows ''cpu'' rows_up = rows_up"
  "valid_rows ''cpu'' rows_down = rows_down"
  by (simp_all add: valid_rows_def rows_above_one_def rows_constant_def
      rows_constant_scaled_def rows_scaled_def rows_up_def rows_down_def month_row_def
      buckets_of_def bucket_on_def double_0_1_def double_1_2_def double_3_7_def
      double_0_1_scaled_def getMetricData_def)

lemma length_examples:
  "length rows_above_one = 3" "length rows_constant = 3" "length rows_constant_scaled = 3"
  "length rows_scaled = 3"
  by (simp_all add: rows_above_one_def rows_constant_def rows_constant_scaled_def
      rows_scaled_def buckets_of_def)

lemma above_one_means:
  "num_mean ieee_runtime (metric_seq ''cpu'' rows_above_one) =
     Num (403447466618607 / 140737488355328)
   \<and> num_mean ieee_runtime (event_seq rows_above_one) = Num 3"
  unfolding num_mean_def num_sum_def by (simp add: ieee_eval example_rows)

lemma above_one_sums:
  "num_sum ieee_runtime
     (map (\<lambda>(x, y). num_mul ieee_runtime
                       (num_sub ieee_runtime x (Num (403447466618607 / 140737488355328)))
                       (num_sub ieee_runtime y (Num 3)))
          (zip (metric_seq ''cpu'' rows_above_one) (event_seq rows_above_one))) =
   Num (5629499534213121 / 1125899906842624)
   \<and> num_mul ieee_runtime
     (num_sum ieee_runtime
        (map (\<lambda>x. num_mul ieee_runtime
                     (num_sub ieee_runtime x (Num (403447466618607 / 140737488355328)))
                     (num_sub ieee_runtime x (Num (403447466618607 / 140737488355328))))
             (metric_seq ''cpu'' rows_above_one)))
     (num_sum ieee_runtime
        (map (\<lambda>y. num_mul ieee_runtime (num_sub ieee_runtime y (Num 3))
                                       (num_sub ieee_runtime y (Num 3)))
             (event_seq rows_above_one))) = Num 25"
  unfolding num_sum_def by (simp add: ieee_eval example_rows)

lemma above_one_quotient:
  "num_div ieee_runtime (Num (5629499534213121 / 1125899906842624)) (Num 5) =
   Num (4503599627370497 / 4503599627370496)"
  by (simp add: ieee_eval)

lemma above_one_computed:
  "calculateCorrelation ieee_runtime rows_above_one ''cpu'' =
     Num (4503599627370497 / 4503599627370496)"
proof -
  have l: "length rows_above_one = 3" by (rule length_examples)
  have "pearson_computed ieee_runtime (metric_seq ''cpu'' rows_above_one)
          (event_seq rows_above_one) = Num (4503599627370497 / 4503599627370496)"
    using above_one_means above_one_sums ieee_sqrt_25 above_one_quotient
    by (rule pearson_computed_steps)
  then show ?thesis
    by (simp add: calculateCorrelation_valid_rows_computed valid_examples l nan_to_zero_def)
qed

lemma constant_means:
  "num_mean ieee_runtime (metric_seq ''cpu'' rows_constant) =
     Num (7205759403792795 / 72057594037927936)
   \<and> num_mean ieee_runtime (event_seq rows_constant) =
     Num (5254199565265579 / 2251799813685248)"
  unfolding num_mean_def num_sum_def by (simp add: ieee_eval example_rows)

lemma constant_sums:
  "num_sum ieee_runtime
     (map (\<lambda>(x, y). num_mul ieee_runtime
                       (num_sub ieee_runtime x (Num (7205759403792795 / 72057594037927936)))
                       (num_sub ieee_runtime y (Num (5254199565265579 / 2251799813685248))))
          (zip (metric_seq ''cpu'' rows_constant) (event_seq rows_constant))) =
   Num (1 / 162259276829213363391578010288128)
   \<and> num_mul ieee_runtime
     (num_sum ieee_runtime
        (map (\<lambda>x. num_mul ieee_runtime
                     (num_sub ieee_runtime x (Num (7205759403792795 / 72057594037927936)))
                     (num_sub ieee_runtime x (Num (7205759403792795 / 72057594037927936))))
             (metric_seq ''cpu'' rows_constant)))
     (num_sum ieee_runtime
        (map (\<lambda>y. num_mul ieee_runtime
                     (num_sub ieee_runtime y (Num (5254199565265579 / 2251799813685248)))
                     (num_sub ieee_runtime y (Num (5254199565265579 / 2251799813685248))))
             (event_seq rows_constant))) =
   Num (7881299347898367 / 2923003274661805836407369665432566039311865085952)"
  unfolding num_sum_def by (simp add: ieee_eval example_rows)

lemma constant_quotient:
  "num_div ieee_runtime (Num (1 / 162259276829213363391578010288128))
     (Num (8425463406411593 / 162259276829213363391578010288128)) =
   Num (2407275258974741 / 20282409603651670423947251286016)"
  by (simp add: ieee_eval)

lemma constant_computed:
  "calculateCorrelation ieee_runtime rows_constant ''cpu'' =
     Num (2407275258974741 / 20282409603651670423947251286016)"
proof -
  have l: "length rows_constant = 3" by (rule length_examples)
  have "pearson_computed ieee_runtime (metric_seq ''cpu'' rows_constant)
          (event_seq rows_constant) = Num (2407275258974741 / 20282409603651670423947251286016)"
    using constant_means constant_sums ieee_sqrt_inexact constant_quotient
    by (rule pearson_computed_steps)
  then show ?thesis
    by (simp add: calculateCorrelation_valid_rows_computed valid_examples l nan_to_zero_def)
qed

lemma constant_zero_variance:
  "zero_variance (metric_seq ''cpu'' rows_constant)"
  "zero_variance (metric_seq ''cpu'' rows_constant_scaled)"
  by (simp_all add: zero_variance_def example_rows js_mean_def js_sub_def)

text \<open>The same averages scaled by \<open>2 powi - 500\<close>: every deviation is
  \<open>- 1 / 2 ^ 556\<close>, its square \<open>1 / 2 ^ 1112\<close> is below half the smallest double and rounds
  to 0, and the numerator \<open>1 / 2 ^ 607\<close> is divided by 0.\<close>

lemma constant_scaled_means:
  "num_mean ieee_runtime (metric_seq ''cpu'' rows_constant_scaled) =
     Num (7205759403792795 / 2 ^ 556)
   \<and> num_mean ieee_runtime (event_seq rows_constant_scaled) =
     Num (5254199565265579 / 2251799813685248)"
  unfolding num_mean_def num_sum_def by (simp add: ieee_eval example_rows)

lemma constant_scaled_sums:
  "num_sum ieee_runtime
     (map (\<lambda>(x, y). num_mul ieee_runtime
                       (num_sub ieee_runtime x (Num (7205759403792795 / 2 ^ 556)))
                       (num_sub ieee_runtime y (Num (5254199565265579 / 2251799813685248))))
          (zip (metric_seq ''cpu'' rows_constant_scaled) (event_seq rows_constant_scaled))) =
   Num (1 / 2 ^ 607)
   \<and> num_mul ieee_runtime
     (num_sum ieee_runtime
        (map (\<lambda>x. num_mul ieee_runtime
                     (num_sub ieee_runtime x (Num (7205759403792795 / 2 ^ 556)))
                     (num_sub ieee_runtime x (Num (7205759403792795 / 2 ^ 556))))
             (metric_seq ''cpu'' rows_constant_scaled)))
     (num_sum ieee_runtime
        (map (\<lambda>y. num_mul ieee_runtime
                     (num_sub ieee_runtime y (Num (5254199565265579 / 2251799813685248)))
                     (num_sub ieee_runtime y (Num (5254199565265579 / 2251799813685248))))
             (event_seq rows_constant_scaled))) = Num 0"
  unfolding num_sum_def by (simp add: ieee_eval example_rows)

lemma constant_scaled_computed:
  "calculateCorrelation ieee_runtime rows_constant_scaled ''cpu'' = PInf"
proof -
  have q: "num_div ieee_runtime (Num (1 / 2 ^ 607)) (Num 0) = PInf"
    by (simp add: num_div_def inf_of_sign_def)
  have "pearson_computed ieee_runtime (metric_seq ''cpu'' rows_constant_scaled)
          (event_seq rows_constant_scaled) = PInf"
    using constant_scaled_means constant_scaled_sums ieee_sqrt_0 q
    by (rule pearson_computed_steps)
  then show ?thesis
    by (simp add: calculateCorrelation_valid_rows_computed valid_examples length_examples
        nan_to_zero_def)
qed

text \<open>The averages 1, 2, 3 scaled by \<open>2 powi - 540\<close> against the counts 1, 2, 3: the
  deviations are \<open>- 1 / 2 ^ 540\<close>, 0 and \<open>1 / 2 ^ 540\<close>, their squares round to 0, and the
  numerator \<open>1 / 2 ^ 539\<close> is divided by 0.\<close>

lemma scaled_means:
  "num_mean ieee_runtime (metric_seq ''cpu'' rows_scaled) = Num (1 / 2 ^ 539)
   \<and> num_mean ieee_runtime (event_seq rows_scaled) = Num 2"
  unfolding num_mean_def num_sum_def by (simp add: ieee_eval example_rows)

lemma scaled_sums:
  "num_sum ieee_runtime
     (map (\<lambda>(x, y). num_mul ieee_runtime (num_sub ieee_runtime x (Num (1 / 2 ^ 539)))
                                          (num_sub ieee_runtime y (Num 2)))
          (zip (metric_seq ''cpu'' rows_scaled) (event_seq rows_scaled))) = Num (1 / 2 ^ 539)
   \<and> num_mul ieee_runtime
     (num_sum ieee_runtime
        (map (\<lambda>x. num_mul ieee_runtime (num_sub ieee_runtime x (Num (1 / 2 ^ 539)))
                                       (num_sub ieee_runtime x (Num (1 / 2 ^ 539))))
             (metric_seq ''cpu'' rows_scaled)))
     (num_sum ieee_runtime
        (map (\<lambda>y. num_mul ieee_runtime (num_sub ieee_runtime y (Num 2))
                                       (num_sub ieee_runtime y (Num 2)))
             (event_seq rows_scaled))) = Num 0"
  unfolding num_sum_def by (simp add: ieee_eval example_rows)

lemma scaled_computed: "calculateCorrelation ieee_runtime rows_scaled ''cpu'' = PInf"
proof -
  have q: "num_div ieee_runtime (Num (1 / 2 ^ 539)) (Num 0) = PInf"
    by (simp add: num_div_def inf_of_sign_def)
  have "pearson_computed ieee_runtime (metric_seq ''cpu'' rows_scaled) (event_seq rows_scaled) =
          PInf"
    using scaled_means scaled_sums ieee_sqrt_0 q by (rule pearson_computed_steps)
  then show ?thesis
    by (simp add: calculateCorrelation_valid_rows_computed valid_examples length_examples
        nan_to_zero_def)
qed

lemma not_degenerate_examples:
  "\<not> degenerate (metric_seq ''cpu'' rows_above_one) (event_seq rows_above_one)"
  "\<not> degenerate (metric_seq ''cpu'' rows_scaled) (event_seq rows_scaled)"
  by (simp_all add: degenerate_def zero_variance_def example_rows js_mean_def js_sub_def)

text \<open>The four lists of monthly rows are what \<open>correlatedData\<close> computes from the
  prediction and event rows, and \<open>filteredData\<close> with the filter \<open>all\<close> passes them on
  unchanged.\<close>

lemma three_months_keys:
  "monthKey_of ieee_runtime (Some (2024, 11, 3)) = ''2024-12''"
  "monthKey_of ieee_runtime (Some (2025, 0, 15)) = ''2025-01''"
  "monthKey_of ieee_runtime (Some (2025, 1, 10)) = ''2025-02''"
  by (simp_all add: monthKey_of_def ieee_runtime_def sample_runtime_def show_int_or_NaN_def
      show_int_def show_nat.simps digit_char_def padStart2_def)

lemma ieee_fields:
  "newDate ieee_runtime = three_months_newDate"
  "localeCompare ieee_runtime = sample_compare"
  "toLowerCase ieee_runtime = sample_toLowerCase"
  by (simp_all add: ieee_runtime_def sample_runtime_def)

lemma replicate_few:
  "replicate 1 x = [x]" "replicate 2 x = [x, x]" "replicate 3 x = [x, x, x]"
  "replicate 4 x = [x, x, x, x]"
  by (simp_all add: numeral_eq_Suc)

lemmas reach_eval = correlatedData_def predictions_of_def events_of_def prediction_on_def
  event_on_def empty_row_def predictions_step_def events_step_def Let_def three_months_keys
  ieee_fields three_months_newDate_def sample_newDate_def js_sort_def correlated_of_def
  high_severity_def type_includes_def and_then_def average_def push_value_def
  num_or_zero_def sample_compare_def sample_toLowerCase_def buckets_of_def bucket_on_def
  replicate_few ieee_eval

lemma constant_reached:
  "correlatedData ieee_runtime (predictions_of double_0_1 double_0_1 double_0_1)
     (events_of 1 2 4) = Inr rows_constant"
  by (simp add: rows_constant_def double_0_1_def reach_eval)

lemma constant_scaled_reached:
  "correlatedData ieee_runtime
     (predictions_of double_0_1_scaled double_0_1_scaled double_0_1_scaled)
     (events_of 1 2 4) = Inr rows_constant_scaled"
  by (simp add: rows_constant_scaled_def double_0_1_scaled_def reach_eval)

lemma above_one_reached:
  "correlatedData ieee_runtime (predictions_of double_1_2 double_3_7 double_3_7)
     (events_of 1 4 4) = Inr rows_above_one"
  by (simp add: rows_above_one_def double_1_2_def double_3_7_def reach_eval)

lemma scaled_reached:
  "correlatedData ieee_runtime (predictions_of (1 / 2 ^ 540) (2 / 2 ^ 540) (3 / 2 ^ 540))
     (events_of 1 2 3) = Inr rows_scaled"
  by (simp add: rows_scaled_def reach_eval)

lemma filteredData_all: "filteredData ''all'' rows = rows"
  by (simp add: filteredData_def)

lemma up_means:
  "num_mean ieee_runtime (metric_seq ''cpu'' rows_up) = Num 2
   \<and> num_mean ieee_runtime (event_seq rows_up) = Num 2"
  unfolding num_mean_def num_sum_def by (simp add: ieee_eval example_rows)

lemma up_sums:
  "num_sum ieee_runtime
     (map (\<lambda>(x, y). num_mul ieee_runtime (num_sub ieee_runtime x (Num 2))
                                          (num_sub ieee_runtime y (Num 2)))
          (zip (metric_seq ''cpu'' rows_up) (event_seq rows_up))) = Num 2
   \<and> num_mul ieee_runtime
     (num_sum ieee_runtime
        (map (\<lambda>x. num_mul ieee_runtime (num_sub ieee_runtime x (Num 2))
                                       (num_sub ieee_runtime x (Num 2)))
             (metric_seq ''cpu'' rows_up)))
     (num_sum ieee_runtime
        (map (\<lambda>y. num_mul ieee_runtime (num_sub ieee_runtime y (Num 2))
                                       (num_sub ieee_runtime y (Num 2)))
             (event_seq rows_up))) = Num 4"
  unfolding num_sum_def by (simp add: ieee_eval example_rows)

lemma down_means:
  "num_mean ieee_runtime (metric_seq ''cpu'' rows_down) = Num 2
   \<and> num_mean ieee_runtime (event_seq rows_down) = Num 2"
  unfolding num_mean_def num_sum_def by (simp add: ieee_eval example_rows)

lemma down_sums:
  "num_sum ieee_runtime
     (map (\<lambda>(x, y). num_mul ieee_runtime (num_sub ieee_runtime x (Num 2))
                                          (num_sub ieee_runtime y (Num 2)))
          (zip (metric_seq ''cpu'' rows_down) (event_seq rows_down))) = Num (- 2)
   \<and> num_mul ieee_runtime
     (num_sum ieee_runtime
        (map (\<lambda>x. num_mul ieee_runtime (num_sub ieee_runtime x (Num 2))
                                       (num_sub ieee_runtime x (Num 2)))
             (metric_seq ''cpu'' rows_down)))
     (num_sum ieee_runtime
        (map (\<lambda>y. num_mul ieee_runtime (num_sub ieee_runtime y (Num 2))
                                       (num_sub ieee_runtime y (Num 2)))
             (event_seq rows_down))) = Num 4"
  unfolding num_sum_def by (simp add: ieee_eval example_rows)

lemma unit_quotients:
  "num_div ieee_runtime (Num 2) (Num 2) = Num 1"
  "num_div ieee_runtime (Num (- 2)) (Num 2) = Num (- 1)"
  by (simp_all add: ieee_eval)

lemma up_computed: "calculateCorrelation ieee_runtime rows_up ''cpu'' = Num 1"
proof -
  have l: "length rows_up = 3" by (simp add: rows_up_def)
  have "pearson_computed ieee_runtime (metric_seq ''cpu'' rows_up) (event_seq rows_up) = Num 1"
    using up_means up_sums ieee_sqrt_4 unit_quotients(1)
    by (rule pearson_computed_steps)
  then show ?thesis
    by (simp add: calculateCorrelation_valid_rows_computed valid_examples l nan_to_zero_def)
qed

lemma down_computed: "calculateCorrelation ieee_runtime rows_down ''cpu'' = Num (- 1)"
proof -
  have l: "length rows_down = 3" by (simp add: rows_down_def)
  have "pearson_computed ieee_runtime (metric_seq ''cpu'' rows_down) (event_seq rows_down) =
          Num (- 1)"
    using down_means down_sums ieee_sqrt_4 unit_quotients(2)
    by (rule pearson_computed_steps)
  then show ?thesis
    by (simp add: calculateCorrelation_valid_rows_computed valid_examples l nan_to_zero_def)
qed

lemma up_down_exact:
  assumes "exact_arithmetic rt"
  shows "calculateCorrelation rt rows_up ''cpu'' = Num 1"
    and "calculateCorrelation rt rows_down ''cpu'' = Num (- 1)"
  unfolding calculateCorrelation_valid_rows [OF assms] valid_examples
  by (simp_all add: rows_up_def rows_down_def metric_seq_def event_seq_def month_row_def
      getMetricData_def pearson_def js_mean_def js_sub_def nan_to_zero_def Let_def)

text \<open>
  Claim C1, which the code does not meet. In exact arithmetic the estimator gives 0 on
  every sequence of zero variance, as shown above. It has no test for zero variance: it
  leaves that case to the guard
  \<open>isNaN(correlation) ? 0 : correlation\<close>, which turns the \<open>0 / 0\<close> of the formula into
  0. In the arithmetic of doubles the guard misses sequences of zero variance. With the
  CPU average 0.1 in each of three months, against 1, 2 and 4 events, the sum of the
  averages rounds to 0.30000000000000004 and the mean to 0.10000000000000002, every
  deviation is \<open>- 1 / 2 ^ 56\<close> instead of 0, and the result is
  \<open>2407275258974741 / 2 ^ 104\<close>, about 1.19e-16, not 0. With the same averages scaled
  by \<open>2 powi - 500\<close> the squared deviations round to 0, the numerator does not, and the
  result is \<open>Infinity\<close>, which is not NaN and passes the guard.
\<close>

theorem calculateCorrelation_zero_variance_not_zero:
  "correlatedData ieee_runtime (predictions_of double_0_1 double_0_1 double_0_1)
     (events_of 1 2 4) = Inr rows_constant
   \<and> degenerate (metric_seq ''cpu'' rows_constant) (event_seq rows_constant)
   \<and> calculateCorrelation ieee_runtime (filteredData ''all'' rows_constant) ''cpu'' =
       Num (2407275258974741 / 2 ^ 104)
   \<and> correlatedData ieee_runtime
       (predictions_of double_0_1_scaled double_0_1_scaled double_0_1_scaled)
       (events_of 1 2 4) = Inr rows_constant_scaled
   \<and> degenerate (metric_seq ''cpu'' rows_constant_scaled) (event_seq rows_constant_scaled)
   \<and> calculateCorrelation ieee_runtime (filteredData ''all'' rows_constant_scaled) ''cpu'' =
       PInf"
proof -
  have d: "degenerate (metric_seq ''cpu'' rows_constant) (event_seq rows_constant)"
    "degenerate (metric_seq ''cpu'' rows_constant_scaled) (event_seq rows_constant_scaled)"
    by (simp_all add: degenerate_def constant_zero_variance)
  have c: "calculateCorrelation ieee_runtime rows_constant ''cpu'' =
      Num (2407275258974741 / 2 ^ 104)"
    by (simp add: constant_computed)
  show ?thesis
    unfolding filteredData_all
    using constant_reached d(1) c constant_scaled_reached d(2) constant_scaled_computed
    by (intro conjI)
qed

text \<open>
  Claim C5, which the code does not meet. In exact arithmetic the estimator stays in the
  interval, as shown above, and the two examples of the claim give 1 and -1, in doubles
  too. The estimator returns the quotient of the formula as it is computed, with no
  guard but the one against NaN. In the arithmetic of doubles the result can leave
  the interval from -1 to 1 on sequences of length three with nonzero variance in both.
  With the CPU averages 1.2, 3.7, 3.7 against 1, 4 and 4 events the numerator is computed
  as 5.000000000000001 and the product of the two sums of squares as 25, whose square
  root is 5, so the result is \<open>1 + 1 / 2 ^ 52\<close>. With the averages 1, 2, 3 scaled by
  \<open>2 powi - 540\<close> against 1, 2 and 3 events the squared deviations of the averages round
  to 0, the numerator does not, and the result is \<open>Infinity\<close>.
\<close>

theorem calculateCorrelation_outside_unit_interval:
  "correlatedData ieee_runtime (predictions_of double_1_2 double_3_7 double_3_7)
     (events_of 1 4 4) = Inr rows_above_one
   \<and> \<not> degenerate (metric_seq ''cpu'' rows_above_one) (event_seq rows_above_one)
   \<and> calculateCorrelation ieee_runtime (filteredData ''all'' rows_above_one) ''cpu'' =
       Num (1 + 1 / 2 ^ 52)
   \<and> correlatedData ieee_runtime (predictions_of (1 / 2 ^ 540) (2 / 2 ^ 540) (3 / 2 ^ 540))
       (events_of 1 2 3) = Inr rows_scaled
   \<and> \<not> degenerate (metric_seq ''cpu'' rows_scaled) (event_seq rows_scaled)
   \<and> calculateCorrelation ieee_runtime (filteredData ''all'' rows_scaled) ''cpu'' = PInf"
proof -
  have c: "calculateCorrelation ieee_runtime rows_above_one ''cpu'' = Num (1 + 1 / 2 ^ 52)"
    by (simp add: above_one_computed)
  show ?thesis
    unfolding filteredData_all
    using above_one_reached not_degenerate_examples(1) c scaled_reached
      not_degenerate_examples(2) scaled_computed
    by (intro conjI)
qed

section \<open>Properties of the monthly aggregation\<close>

lemma collect_Inr:
  "collect rs = Inr out \<Longrightarrow> length out = length rs \<and> (\<forall>i<length rs. rs ! i = Inr (out ! i))"
proof (induction rs arbitrary: out)
  case Nil
  then show ?case by simp
next
  case (Cons r rs)
  from Cons.prems obtain a as where r: "r = Inr a" and c: "collect rs = Inr as" and o: "out = a # as"
    by (auto simp: and_then_def split: sum.splits)
  have "length as = length rs \<and> (\<forall>i<length rs. rs ! i = Inr (as ! i))" using Cons.IH [OF c] .
  then show ?case using r o by (auto simp: nth_Cons split: nat.splits)
qed

lemma collect_total:
  "(\<forall>r\<in>set rs. \<exists>a. r = Inr a) \<Longrightarrow> \<exists>out. collect rs = Inr out"
proof (induction rs)
  case Nil
  show ?case by simp
next
  case (Cons r rs)
  then obtain a as where "r = Inr a" "collect rs = Inr as" by auto
  then show ?case by (simp add: and_then_def)
qed

lemma map_of_map_set: "map_of (map_set k v m) = (map_of m)(k \<mapsto> v)"
  by (induction m) (auto simp: fun_eq_iff)

lemma keys_map_set:
  "map fst (map_set k v m) = (if k \<in> fst ` set m then map fst m else map fst m @ [k])"
  by (induction m) auto

lemma distinct_map_set: "distinct (map fst m) \<Longrightarrow> distinct (map fst (map_set k v m))"
  by (simp add: keys_map_set)

lemma monthly_step_distinct:
  "distinct (map fst m) \<Longrightarrow> distinct (map fst (monthly_step rt m item))"
  by (simp add: monthly_step_def Let_def distinct_map_set)

lemma foldl_monthly_distinct:
  "distinct (map fst m) \<Longrightarrow> distinct (map fst (foldl (monthly_step rt) m data))"
  by (induction data arbitrary: m) (simp_all add: monthly_step_distinct)

lemma present_values_snoc:
  "present_values rt f (rows @ [item]) = push_value rt (item f) (present_values rt f rows)"
  by (simp add: present_values_def push_value_def)

lemma bucket_rows_snoc:
  "bucket_rows rt (data @ [item]) k =
     (if dated item \<and> row_key rt item = k then bucket_rows rt data k @ [item]
      else bucket_rows rt data k)"
  by (simp add: bucket_rows_def)

lemma present_values_Nil [simp]: "present_values rt f [] = []"
  by (simp add: present_values_def)

lemma present_values_single: "present_values rt f [item] = push_value rt (item f) []"
  by (simp add: present_values_def push_value_def)

text \<open>The map after the loop: a key is present exactly when some dated row has it, and
  its object collects that key's rows.\<close>

lemma monthly_fold_collects:
  "case map_of (foldl (monthly_step rt) [] data) k of
     None \<Rightarrow> bucket_rows rt data k = []
   | Some md \<Rightarrow> bucket_rows rt data k \<noteq> [] \<and> collects rt data k md"
proof (induction data arbitrary: k rule: rev_induct)
  case Nil
  show ?case by (simp add: bucket_rows_def)
next
  case (snoc item data)
  define m where "m = foldl (monthly_step rt) [] data"
  have ih: "case map_of m k of
     None \<Rightarrow> bucket_rows rt data k = []
   | Some md \<Rightarrow> bucket_rows rt data k \<noteq> [] \<and> collects rt data k md" for k
    unfolding m_def by (rule snoc)
  have fold: "foldl (monthly_step rt) [] (data @ [item]) = monthly_step rt m item"
    by (simp add: m_def)
  show ?case unfolding fold
  proof (cases "dated item")
    case False
    then have "monthly_step rt m item = m" by (simp add: monthly_step_def dated_def)
    then show "case map_of (monthly_step rt m item) k of
       None \<Rightarrow> bucket_rows rt (data @ [item]) k = []
     | Some md \<Rightarrow> bucket_rows rt (data @ [item]) k \<noteq> [] \<and> collects rt (data @ [item]) k md"
      using ih [of k] False
      by (simp add: bucket_rows_snoc collects_def split: option.splits)
  next
    case True
    let ?k0 = "row_key rt item"
    show "case map_of (monthly_step rt m item) k of
       None \<Rightarrow> bucket_rows rt (data @ [item]) k = []
     | Some md \<Rightarrow> bucket_rows rt (data @ [item]) k \<noteq> [] \<and> collects rt (data @ [item]) k md"
    proof (cases "k = ?k0")
      case False
      then have "map_of (monthly_step rt m item) k = map_of m k"
        using True by (simp add: monthly_step_def dated_def Let_def map_of_map_set row_key_def)
      then show ?thesis using ih [of k] False
        by (simp add: bucket_rows_snoc collects_def split: option.splits)
    next
      case k: True
      show ?thesis
      proof (cases "map_of m ?k0")
        case None
        then have "bucket_rows rt data ?k0 = []" using ih [of ?k0] by simp
        then show ?thesis using True None k
          by (simp add: monthly_step_def dated_def Let_def map_of_map_set row_key_def [symmetric]
              bucket_rows_snoc collects_def present_values_single)
      next
        case (Some md)
        then have "collects rt data ?k0 md" using ih [of ?k0] by simp
        then show ?thesis using True Some k
          by (simp add: monthly_step_def dated_def Let_def map_of_map_set row_key_def [symmetric]
              bucket_rows_snoc collects_def present_values_snoc)
      qed
    qed
  qed
qed

lemma set_insert_by [simp]: "set (insert_by cmp x ys) = insert x (set ys)"
  by (induction ys) auto

lemma set_js_sort [simp]: "set (js_sort cmp xs) = set xs"
  unfolding js_sort_def by (induction xs) simp_all

lemma distinct_map_insert_by:
  "distinct (map f (insert_by cmp x ys)) \<longleftrightarrow> f x \<notin> f ` set ys \<and> distinct (map f ys)"
  by (induction ys) auto

lemma distinct_map_js_sort: "distinct (map f (js_sort cmp xs)) \<longleftrightarrow> distinct (map f xs)"
  unfolding js_sort_def
proof (induction xs)
  case Nil
  show ?case by simp
next
  case (Cons x xs)
  have "set (foldr (insert_by cmp) xs []) = set xs"
    using set_js_sort [of cmp xs] by (simp add: js_sort_def)
  then show ?case using Cons by (simp add: distinct_map_insert_by)
qed

lemma sorted_insert_by:
  assumes tot: "\<And>a b. cmp a b \<le> 0 \<or> cmp b a \<le> 0"
    and trans: "\<And>a b c. cmp a b \<le> 0 \<Longrightarrow> cmp b c \<le> 0 \<Longrightarrow> cmp a c \<le> 0"
  shows "sorted_wrt (\<lambda>a b. cmp a b \<le> 0) ys \<Longrightarrow> sorted_wrt (\<lambda>a b. cmp a b \<le> 0) (insert_by cmp x ys)"
proof (induction ys)
  case Nil
  show ?case by simp
next
  case (Cons y ys)
  show ?case
  proof (cases "cmp x y \<le> 0")
    case True
    then have "\<forall>z\<in>set ys. cmp x z \<le> 0" using Cons.prems trans by auto
    then show ?thesis using True Cons.prems by simp
  next
    case False
    then have "cmp y x \<le> 0" using tot [of x y] by simp
    then show ?thesis using False Cons by auto
  qed
qed

lemma sorted_js_sort:
  assumes "\<forall>a b. cmp a b \<le> 0 \<or> cmp b a \<le> 0"
    and "\<forall>a b c. cmp a b \<le> 0 \<longrightarrow> cmp b c \<le> 0 \<longrightarrow> cmp a c \<le> 0"
  shows "sorted_wrt (\<lambda>a b. cmp a b \<le> 0) (js_sort cmp xs)"
proof -
  have tot: "\<And>a b. cmp a b \<le> 0 \<or> cmp b a \<le> 0"
    and trans: "\<And>a b c. cmp a b \<le> 0 \<Longrightarrow> cmp b c \<le> 0 \<Longrightarrow> cmp a c \<le> 0"
    using assms by blast+
  show ?thesis
    unfolding js_sort_def
    by (induction xs) (simp_all add: sorted_insert_by [of cmp, OF tot trans])
qed

lemma sorted_wrt_strict:
  "sorted_wrt P xs \<Longrightarrow> distinct (map f xs) \<Longrightarrow>
   (\<And>a b. a \<in> set xs \<Longrightarrow> b \<in> set xs \<Longrightarrow> P a b \<Longrightarrow> f a \<noteq> f b \<Longrightarrow> Q a b) \<Longrightarrow>
   sorted_wrt Q xs"
  by (induction xs) auto

lemma foldl_js_add_sum: "foldl js_add (Num 0) xs = js_sum xs"
  by (simp add: foldl_js_add)

lemma average_mean: "average rt xs = num_or_zero (num_mean rt xs)"
  by (simp add: average_def num_mean_def num_sum_def)

lemma map_of_in_distinct:
  "distinct (map fst m) \<Longrightarrow> (k, v) \<in> set m \<Longrightarrow> map_of m k = Some v"
  by simp

lemma monthly_map_entry:
  assumes "(k, md) \<in> set (foldl (monthly_step rt) [] data)"
  shows "bucket_rows rt data k \<noteq> [] \<and> collects rt data k md"
proof -
  have "distinct (map fst (foldl (monthly_step rt) [] data))"
    by (rule foldl_monthly_distinct) simp
  then have "map_of (foldl (monthly_step rt) [] data) k = Some md"
    using assms by simp
  then show ?thesis using monthly_fold_collects [of rt data k] by simp
qed

lemma monthly_output:
  assumes "b \<in> set (processedData_monthly rt data)"
  shows "\<exists>md. b = monthly_averages rt md \<and> collects rt data (monthly.month b) md
              \<and> bucket_rows rt data (monthly.month b) \<noteq> []"
proof -
  have "data \<noteq> []" using assms by (auto simp: processedData_monthly_def)
  then obtain k md where e: "(k, md) \<in> set (foldl (monthly_step rt) [] data)"
      and b: "b = monthly_averages rt md"
    using assms by (auto simp: processedData_monthly_def Let_def)
  have c: "bucket_rows rt data k \<noteq> [] \<and> collects rt data k md"
    using e by (rule monthly_map_entry)
  then have "monthly.month b = k" by (simp add: b monthly_averages_def collects_def)
  then show ?thesis using b c by blast
qed

lemma monthly_keys_distinct: "distinct (map monthly.month (processedData_monthly rt data))"
proof (cases "data = []")
  case True
  then show ?thesis by (simp add: processedData_monthly_def)
next
  case False
  let ?m = "foldl (monthly_step rt) [] data"
  have d: "distinct (map fst ?m)" by (rule foldl_monthly_distinct) simp
  have "map (monthly.month \<circ> (\<lambda>(k, md). monthly_averages rt md)) ?m = map fst ?m"
  proof (rule map_cong [OF refl])
    fix p assume "p \<in> set ?m"
    then have "(fst p, snd p) \<in> set ?m" by simp
    then have "collects rt data (fst p) (snd p)" using monthly_map_entry by blast
    then show "(monthly.month \<circ> (\<lambda>(k, md). monthly_averages rt md)) p = fst p"
      by (simp add: monthly_averages_def collects_def split_def)
  qed
  then have "distinct (map monthly.month (map (\<lambda>(k, md). monthly_averages rt md) ?m))"
    using d by (simp only: map_map)
  then show ?thesis using False
    by (simp only: processedData_monthly_def Let_def distinct_map_js_sort if_False)
qed

lemma bucket_rows_key:
  "bucket_rows rt data k \<noteq> [] \<Longrightarrow> \<exists>d. k = monthKey_of rt d"
proof -
  assume "bucket_rows rt data k \<noteq> []"
  then obtain item where "item \<in> set (bucket_rows rt data k)" by (cases "bucket_rows rt data k") auto
  then have "row_key rt item = k" by (simp add: bucket_rows_def)
  then show ?thesis unfolding row_key_def by blast
qed

subsection \<open>The second aggregator\<close>

lemma predictions_step_distinct:
  "distinct (map fst m) \<Longrightarrow> distinct (map fst (predictions_step rt m item))"
  by (simp add: predictions_step_def Let_def distinct_map_set)

lemma foldl_predictions_distinct:
  "distinct (map fst m) \<Longrightarrow> distinct (map fst (foldl (predictions_step rt) m data))"
  by (induction data arbitrary: m) (simp_all add: predictions_step_distinct)

lemma predictions_fold_collects:
  "case map_of (foldl (predictions_step rt) [] data) k of
     None \<Rightarrow> bucket_rows rt data k = []
   | Some md \<Rightarrow> bucket_rows rt data k \<noteq> [] \<and> collects_values rt data k md
               \<and> month_predictions.events md = []"
proof (induction data arbitrary: k rule: rev_induct)
  case Nil
  show ?case by (simp add: bucket_rows_def)
next
  case (snoc item data)
  define m where "m = foldl (predictions_step rt) [] data"
  have ih: "case map_of m k of
     None \<Rightarrow> bucket_rows rt data k = []
   | Some md \<Rightarrow> bucket_rows rt data k \<noteq> [] \<and> collects_values rt data k md
               \<and> month_predictions.events md = []" for k
    unfolding m_def by (rule snoc)
  have fold: "foldl (predictions_step rt) [] (data @ [item]) = predictions_step rt m item"
    by (simp add: m_def)
  show ?case unfolding fold
  proof (cases "dated item")
    case False
    then have "predictions_step rt m item = m" by (simp add: predictions_step_def dated_def)
    then show "case map_of (predictions_step rt m item) k of
       None \<Rightarrow> bucket_rows rt (data @ [item]) k = []
     | Some md \<Rightarrow> bucket_rows rt (data @ [item]) k \<noteq> []
                 \<and> collects_values rt (data @ [item]) k md \<and> month_predictions.events md = []"
      using ih [of k] False
      by (simp add: bucket_rows_snoc collects_values_def split: option.splits)
  next
    case True
    let ?k0 = "row_key rt item"
    show "case map_of (predictions_step rt m item) k of
       None \<Rightarrow> bucket_rows rt (data @ [item]) k = []
     | Some md \<Rightarrow> bucket_rows rt (data @ [item]) k \<noteq> []
                 \<and> collects_values rt (data @ [item]) k md \<and> month_predictions.events md = []"
    proof (cases "k = ?k0")
      case False
      then have "map_of (predictions_step rt m item) k = map_of m k"
        using True
        by (simp add: predictions_step_def dated_def Let_def map_of_map_set row_key_def)
      then show ?thesis using ih [of k] False
        by (simp add: bucket_rows_snoc collects_values_def split: option.splits)
    next
      case k: True
      show ?thesis
      proof (cases "map_of m ?k0")
        case None
        then have "bucket_rows rt data ?k0 = []" using ih [of ?k0] by simp
        then show ?thesis using True None k
          by (simp add: predictions_step_def dated_def Let_def map_of_map_set
              row_key_def [symmetric] bucket_rows_snoc collects_values_def present_values_single)
      next
        case (Some md)
        then have "collects_values rt data ?k0 md \<and> month_predictions.events md = []"
          using ih [of ?k0] by simp
        then show ?thesis using True Some k
          by (simp add: predictions_step_def dated_def Let_def map_of_map_set
              row_key_def [symmetric] bucket_rows_snoc collects_values_def present_values_snoc)
      qed
    qed
  qed
qed

lemma set_map_set: "set (map_set k v m) \<subseteq> insert (k, v) (set m)"
  by (induction m) auto

lemma months_of_predictions: "months_of rt data evs (foldl (predictions_step rt) [] data)"
proof -
  let ?m = "foldl (predictions_step rt) [] data"
  have d: "distinct (map fst ?m)" by (rule foldl_predictions_distinct) simp
  have "bucket_rows rt data (fst p) \<noteq> [] \<and> collects_values rt data (fst p) (snd p)
        \<and> set (month_predictions.events (snd p)) \<subseteq> evs" if "p \<in> set ?m" for p
  proof -
    from that have "(fst p, snd p) \<in> set ?m" by simp
    with d have "map_of ?m (fst p) = Some (snd p)" by simp
    then show ?thesis using predictions_fold_collects [of rt data "fst p"] by simp
  qed
  with d show ?thesis by (simp add: months_of_def)
qed

lemma months_of_events_step:
  assumes "months_of rt data evs m" and "e \<in> evs"
  shows "months_of rt data evs (events_step rt m e)"
proof (cases "truthy (e ''timestamp'')")
  case False
  then show ?thesis using assms(1) by (simp add: events_step_def)
next
  case True
  let ?k = "monthKey_of rt (newDate rt (e ''timestamp''))"
  show ?thesis
  proof (cases "map_of m ?k")
    case None
    then show ?thesis using assms(1) True by (simp add: events_step_def Let_def)
  next
    case (Some md)
    let ?md = "md \<lparr> month_predictions.events := month_predictions.events md @ [e] \<rparr>"
    have step: "events_step rt m e = map_set ?k ?md m"
      using True Some by (simp add: events_step_def Let_def)
    from Some have mem: "(?k, md) \<in> set m" by (rule map_of_SomeD)
    then have old: "bucket_rows rt data ?k \<noteq> [] \<and> collects_values rt data ?k md
        \<and> set (month_predictions.events md) \<subseteq> evs"
      using assms(1) unfolding months_of_def by fastforce
    have new: "bucket_rows rt data ?k \<noteq> [] \<and> collects_values rt data ?k ?md
        \<and> set (month_predictions.events ?md) \<subseteq> evs"
      using old assms(2) by (simp add: collects_values_def)
    have "distinct (map fst (map_set ?k ?md m))"
      using assms(1) by (simp add: months_of_def distinct_map_set)
    moreover have "\<forall>p\<in>set (map_set ?k ?md m).
        bucket_rows rt data (fst p) \<noteq> [] \<and> collects_values rt data (fst p) (snd p)
        \<and> set (month_predictions.events (snd p)) \<subseteq> evs"
    proof
      fix p assume "p \<in> set (map_set ?k ?md m)"
      then have "p = (?k, ?md) \<or> p \<in> set m" using set_map_set [of ?k ?md m] by auto
      then show "bucket_rows rt data (fst p) \<noteq> [] \<and> collects_values rt data (fst p) (snd p)
        \<and> set (month_predictions.events (snd p)) \<subseteq> evs"
      proof
        assume "p = (?k, ?md)"
        then show ?thesis using new by simp
      next
        assume "p \<in> set m"
        then show ?thesis using assms(1) unfolding months_of_def by blast
      qed
    qed
    ultimately show ?thesis unfolding step months_of_def by blast
  qed
qed

lemma months_of_events_fold:
  "months_of rt data evs m \<Longrightarrow> set es \<subseteq> evs \<Longrightarrow> months_of rt data evs (foldl (events_step rt) m es)"
  by (induction es arbitrary: m) (simp_all add: months_of_events_step)

lemma high_severity_total: "textual_type e \<Longrightarrow> \<exists>flag. high_severity rt e = Inr flag"
  by (cases "e ''type''")
     (auto simp: textual_type_def high_severity_def type_includes_def and_then_def)

lemma correlated_of_total:
  assumes "\<forall>e\<in>set (month_predictions.events md). textual_type e"
  shows "\<exists>c. correlated_of rt md = Inr c"
proof -
  have "\<exists>flags. collect (map (high_severity rt) (month_predictions.events md)) = Inr flags"
    using assms by (intro collect_total) (auto dest: high_severity_total)
  then show ?thesis by (auto simp: correlated_of_def Let_def and_then_def)
qed

lemma correlated_of_fields:
  assumes "correlated_of rt md = Inr c"
  shows "month c = month_predictions.month md"
    and "cpu_avg c = average rt (cpu_values md)"
    and "memory_avg c = average rt (memory_values md)"
    and "network_avg c = average rt (network_values md)"
    and "power_avg c = average rt (power_values md)"
    and "event_count c = length (month_predictions.events md)"
    and "events c = month_predictions.events md"
  using assms
  by (auto simp: correlated_of_def Let_def and_then_def split: sum.splits)

text \<open>The second aggregator returns when no event has a number for its type, and then
  its output has one element per month of the map.\<close>

lemma correlatedData_output:
  assumes "\<forall>e\<in>set eventRows. textual_type e"
  shows "\<exists>out. correlatedData rt predictions eventRows = Inr out
           \<and> distinct (map month out)
           \<and> (\<forall>c\<in>set out. bucket_rows rt predictions (month c) \<noteq> []
                 \<and> cpu_avg c = mean_of_present rt predictions (month c) ''cpu_usage''
                 \<and> memory_avg c = mean_of_present rt predictions (month c) ''memory_usage''
                 \<and> network_avg c = mean_of_present rt predictions (month c) ''network_traffic''
                 \<and> power_avg c = mean_of_present rt predictions (month c) ''power_consumption'')
           \<and> (\<exists>raw. out = js_sort (\<lambda>a b. localeCompare rt (month a) (month b)) raw)"
proof (cases "predictions = [] \<or> eventRows = []")
  case True
  then have "correlatedData rt predictions eventRows = Inr []"
    by (simp add: correlatedData_def)
  moreover have "[] = js_sort (\<lambda>a b. localeCompare rt (correlated.month a) (correlated.month b)) []"
    by (simp add: js_sort_def)
  ultimately show ?thesis by auto
next
  case False
  define m where "m = foldl (events_step rt) (foldl (predictions_step rt) [] predictions) eventRows"
  have inv: "months_of rt predictions (set eventRows) m"
    unfolding m_def by (intro months_of_events_fold months_of_predictions) simp
  have "\<forall>r\<in>set (map (\<lambda>(k, md). correlated_of rt md) m). \<exists>c. r = Inr c"
  proof
    fix r assume "r \<in> set (map (\<lambda>(k, md). correlated_of rt md) m)"
    then obtain p where p: "p \<in> set m" and r: "r = correlated_of rt (snd p)"
      by (auto simp: split_def)
    from inv p have "set (month_predictions.events (snd p)) \<subseteq> set eventRows"
      unfolding months_of_def by blast
    with assms have "\<forall>e\<in>set (month_predictions.events (snd p)). textual_type e" by blast
    then show "\<exists>c. r = Inr c" unfolding r by (rule correlated_of_total)
  qed
  then obtain raw where raw: "collect (map (\<lambda>(k, md). correlated_of rt md) m) = Inr raw"
    using collect_total by blast
  have len: "length raw = length m"
    and nth: "\<forall>i<length m. correlated_of rt (snd (m ! i)) = Inr (raw ! i)"
    using collect_Inr [OF raw] by (simp_all add: split_def)
  let ?out = "js_sort (\<lambda>a b. localeCompare rt (month a) (month b)) raw"
  have res: "correlatedData rt predictions eventRows = Inr ?out"
    using False raw by (simp add: correlatedData_def Let_def m_def [symmetric] and_then_def)
  have keys: "map month raw = map fst m"
  proof (rule nth_equalityI)
    show "length (map month raw) = length (map fst m)" using len by simp
  next
    fix i assume "i < length (map month raw)"
    then have i: "i < length m" using len by simp
    then have "m ! i \<in> set m" by simp
    then have "collects_values rt predictions (fst (m ! i)) (snd (m ! i))"
      using inv unfolding months_of_def by blast
    moreover have "month (raw ! i) = month_predictions.month (snd (m ! i))"
      using nth i correlated_of_fields(1) by blast
    ultimately show "map month raw ! i = map fst m ! i"
      using i len by (simp add: collects_values_def)
  qed
  have d: "distinct (map month ?out)"
    using inv keys by (simp add: distinct_map_js_sort months_of_def)
  have means: "bucket_rows rt predictions (month c) \<noteq> []
                 \<and> cpu_avg c = mean_of_present rt predictions (month c) ''cpu_usage''
                 \<and> memory_avg c = mean_of_present rt predictions (month c) ''memory_usage''
                 \<and> network_avg c = mean_of_present rt predictions (month c) ''network_traffic''
                 \<and> power_avg c = mean_of_present rt predictions (month c) ''power_consumption''"
    if "c \<in> set ?out" for c
  proof -
    from that have "c \<in> set raw" by simp
    then obtain i where i: "i < length m" and c: "c = raw ! i"
      using len by (auto simp: in_set_conv_nth)
    let ?md = "snd (m ! i)"
    have f: "correlated_of rt ?md = Inr c" using nth i c by simp
    from i have "m ! i \<in> set m" by simp
    then have b: "bucket_rows rt predictions (fst (m ! i)) \<noteq> []"
      and cv: "collects_values rt predictions (fst (m ! i)) ?md"
      using inv unfolding months_of_def by blast+
    have k: "month c = fst (m ! i)"
      using correlated_of_fields(1) [OF f] cv by (simp add: collects_values_def)
    show ?thesis
      using b cv correlated_of_fields(2-5) [OF f]
      by (simp add: k collects_values_def mean_of_present_def average_mean)
  qed
  show ?thesis using res d means by blast
qed


lemma correlatedData_sorted_distinct:
  assumes "total_preorder (localeCompare rt)" "separates_keys rt"
    and "\<forall>e\<in>set eventRows. textual_type e"
  shows "\<exists>out. correlatedData rt predictions eventRows = Inr out
           \<and> ascending_months rt out \<and> distinct (map month out)"
proof -
  let ?cmp = "\<lambda>a b. localeCompare rt (correlated.month a) (correlated.month b)"
  obtain out raw where res: "correlatedData rt predictions eventRows = Inr out"
    and d: "distinct (map month out)"
    and b: "\<forall>c\<in>set out. bucket_rows rt predictions (month c) \<noteq> []"
    and o: "out = js_sort ?cmp raw"
    using correlatedData_output [OF assms(3), of rt predictions] by blast
  have tot: "\<forall>a b. ?cmp a b \<le> 0 \<or> ?cmp b a \<le> 0"
    and trans: "\<forall>a b c. ?cmp a b \<le> 0 \<longrightarrow> ?cmp b c \<le> 0 \<longrightarrow> ?cmp a c \<le> 0"
    using assms(1) unfolding total_preorder_def by blast+
  have "sorted_wrt (\<lambda>a b. ?cmp a b \<le> 0) (js_sort ?cmp raw)"
    using tot trans by (rule sorted_js_sort)
  then have s: "sorted_wrt (\<lambda>a b. ?cmp a b \<le> 0) out" using o by (simp only:)
  have "sorted_wrt (\<lambda>a b. ?cmp a b < 0) out"
  proof (rule sorted_wrt_strict [OF s d])
    fix a c
    assume a: "a \<in> set out" and c: "c \<in> set out" and le: "?cmp a c \<le> 0"
      and ne: "month a \<noteq> month c"
    obtain x y where "month a = monthKey_of rt x" "month c = monthKey_of rt y"
      using b a c bucket_rows_key by metis
    then have "?cmp a c \<noteq> 0" using assms(2) ne unfolding separates_keys_def by metis
    then show "?cmp a c < 0" using le by simp
  qed
  then show ?thesis using res d by (simp add: ascending_months_def)
qed

lemma processedData_sorted_distinct:
  assumes "total_preorder (localeCompare rt)" "separates_keys rt"
  shows "ascending_keys rt (processedData_monthly rt data)
       \<and> distinct (map monthly.month (processedData_monthly rt data))"
proof -
  let ?cmp = "\<lambda>a b. localeCompare rt (monthly.month a) (monthly.month b)"
  let ?out = "processedData_monthly rt data"
  have tot: "\<forall>a b. ?cmp a b \<le> 0 \<or> ?cmp b a \<le> 0"
    and trans: "\<forall>a b c. ?cmp a b \<le> 0 \<longrightarrow> ?cmp b c \<le> 0 \<longrightarrow> ?cmp a c \<le> 0"
    using assms(1) unfolding total_preorder_def by blast+
  have s0: "sorted_wrt (\<lambda>a b. ?cmp a b \<le> 0) (js_sort ?cmp xs)" for xs
    using tot trans by (rule sorted_js_sort)
  have s: "sorted_wrt (\<lambda>a b. ?cmp a b \<le> 0) ?out"
  proof (cases "data = []")
    case True
    then show ?thesis by (simp add: processedData_monthly_def)
  next
    case False
    then have "?out = js_sort ?cmp (map (\<lambda>(k, md). monthly_averages rt md)
                                       (foldl (monthly_step rt) [] data))"
      by (simp add: processedData_monthly_def Let_def)
    then show ?thesis using s0 by (simp only:)
  qed
  have d: "distinct (map monthly.month ?out)" by (rule monthly_keys_distinct)
  have "sorted_wrt (\<lambda>a b. ?cmp a b < 0) ?out"
  proof (rule sorted_wrt_strict [OF s d])
    fix a b
    assume a: "a \<in> set ?out" and b: "b \<in> set ?out" and le: "?cmp a b \<le> 0"
      and ne: "monthly.month a \<noteq> monthly.month b"
    obtain d e where "monthly.month a = monthKey_of rt d" "monthly.month b = monthKey_of rt e"
      using monthly_output [OF a] monthly_output [OF b] bucket_rows_key by metis
    then have "?cmp a b \<noteq> 0" using assms(2) ne unfolding separates_keys_def by metis
    then show "?cmp a b < 0" using le by simp
  qed
  then show ?thesis using d by (simp add: ascending_keys_def)
qed

text \<open>
  Claim C3. Each of the two monthly aggregators returns its buckets sorted strictly
  ascending by period key, and no two buckets share a key. The order is the one
  \<open>localeCompare\<close> gives: the runtime's collation is assumed to be a total preorder that
  tells different month keys apart. The second aggregator, \<open>correlatedData\<close>, returns
  when no event has a number for its type; a CSV parse yields none. (The statement holds
  for the empty sequence as well.)
\<close>

theorem monthly_sorted_distinct:
  assumes "total_preorder (localeCompare rt)" "separates_keys rt"
  shows "ascending_keys rt (processedData_monthly rt data)
       \<and> distinct (map monthly.month (processedData_monthly rt data))
       \<and> (list_all textual_type eventRows \<longrightarrow>
            (\<exists>out. correlatedData rt data eventRows = Inr out
               \<and> ascending_months rt out \<and> distinct (map month out)))"
  using processedData_sorted_distinct [OF assms, of data]
    correlatedData_sorted_distinct [OF assms, of eventRows data]
  by (simp add: list_all_iff)

lemma show_nat_2025: "show_nat 2025 = ''2025''"
  by (simp add: show_nat.simps digit_char_def)

lemma cmp_test: "sample_compare ''2025-01'' ''2024-12'' = 1"
  by (simp add: sample_compare_def)

lemma sample_keys:
  "monthKey_of sample_runtime (Some (2025, 0, 15)) = ''2025-01''"
  "monthKey_of sample_runtime (Some (2025, 0, 20)) = ''2025-01''"
  "monthKey_of sample_runtime (Some (2024, 11, 3)) = ''2024-12''"
  "monthKey_of sample_runtime None = ''NaN-NaN''"
  by (simp_all add: monthKey_of_def sample_runtime_def show_int_or_NaN_def show_int_def
      show_nat.simps digit_char_def padStart2_def)

lemma sample_fields:
  "newDate sample_runtime = sample_newDate"
  "parseFloatStr sample_runtime = sample_parseFloat"
  "localeCompare sample_runtime = sample_compare"
  "nearest sample_runtime = Num"
  by (simp_all add: sample_runtime_def)

lemmas sample_ops = exact_ops [OF sample_exact]

lemma sample_monthly:
  "processedData_monthly sample_runtime sample_rows =
  [\<lparr> monthly.month = ''2024-12'', cpu_avg = Num 60, memory_avg = Num 0, network_avg = Num 0,
     power_avg = Num 0, cpu_growth = Num 0, memory_growth = Num 0, network_growth = Num 0 \<rparr>,
   \<lparr> monthly.month = ''2025-01'', cpu_avg = Num 80, memory_avg = Num 0, network_avg = Num 0,
     power_avg = Num 0, cpu_growth = Num 0, memory_growth = Num 0, network_growth = Num 0 \<rparr>]"
  by (simp add: processedData_monthly_def sample_rows_def empty_row_def monthly_step_def Let_def
      sample_keys js_sort_def monthly_averages_def average_def push_value_def num_or_zero_def
      sample_compare_def inf_of_sign_def sample_fields sample_newDate_def sample_parseFloat_def
      sample_ops)




lemma sample_lower: "toLowerCase sample_runtime = sample_toLowerCase"
  by (simp add: sample_runtime_def)

lemma sample_correlatedData:
  "correlatedData sample_runtime sample_rows sample_events =
     Inr [\<lparr> month = ''2024-12'', cpu_avg = Num 60, memory_avg = Num 0, network_avg = Num 0,
            power_avg = Num 0, event_count = 0, high_severity_events = 0, event_impact = 0,
            events = [] \<rparr>,
          \<lparr> month = ''2025-01'', cpu_avg = Num 80, memory_avg = Num 0, network_avg = Num 0,
            power_avg = Num 0, event_count = 1, high_severity_events = 1, event_impact = 20,
            events = [empty_row(''timestamp'' := Str ''2025-01-20'', ''type'' := Str ''Earthquake'',
                                ''severity'' := Str ''low'')] \<rparr>]"
  by (simp add: correlatedData_def sample_rows_def sample_events_def empty_row_def
      predictions_step_def events_step_def Let_def sample_keys js_sort_def correlated_of_def
      high_severity_def type_includes_def and_then_def average_def push_value_def
      num_or_zero_def sample_compare_def inf_of_sign_def sample_fields sample_newDate_def
      sample_parseFloat_def sample_lower sample_toLowerCase_def sample_ops)

lemma sample_events_textual: "list_all textual_type sample_events"
  by (simp add: sample_events_def textual_type_def empty_row_def)


lemma sample_total_preorder: "total_preorder (localeCompare sample_runtime)"
  by (auto simp: total_preorder_def sample_fields sample_compare_def)

lemma sample_separates: "separates_keys sample_runtime"
  by (auto simp: separates_keys_def sample_fields sample_compare_def split: if_splits)

theorem monthly_sorted_distinct_witness:
  "total_preorder (localeCompare sample_runtime) \<and> separates_keys sample_runtime
   \<and> map monthly.month (processedData_monthly sample_runtime sample_rows) = [''2024-12'', ''2025-01'']
   \<and> ascending_keys sample_runtime (processedData_monthly sample_runtime sample_rows)
   \<and> distinct (map monthly.month (processedData_monthly sample_runtime sample_rows))
   \<and> list_all textual_type sample_events
   \<and> (\<exists>out. correlatedData sample_runtime sample_rows sample_events = Inr out
          \<and> map month out = [''2024-12'', ''2025-01'']
          \<and> ascending_months sample_runtime out \<and> distinct (map month out))"
  using monthly_sorted_distinct
      [OF sample_total_preorder sample_separates, of sample_rows sample_events]
    sample_total_preorder sample_separates sample_events_textual
  by (simp add: sample_monthly ascending_keys_def sample_correlatedData)


lemma foldl_monthly_filter:
  "foldl (monthly_step rt) m (filter dated data) = foldl (monthly_step rt) m data"
proof (induction data arbitrary: m)
  case Nil
  show ?case by simp
next
  case (Cons item data)
  show ?case
  proof (cases "dated item")
    case True
    then show ?thesis by (simp add: Cons)
  next
    case False
    then have "monthly_step rt m item = m" by (simp add: monthly_step_def dated_def)
    then show ?thesis using False by (simp add: Cons)
  qed
qed

text \<open>
  Claim C7, as stated, fails. A row whose timestamp is the string \<open>tomorrow\<close>, which the
  runtime reads as an invalid date, is not left out: it is collected in a bucket with
  the key \<open>NaN-NaN\<close>, whose CPU mean is the row's value.
\<close>

theorem unparseable_timestamp_bucketed_counterexample:
  "getFullYear sample_runtime (newDate sample_runtime (Str ''tomorrow'')) = None
   \<and> processedData_monthly sample_runtime unparseable_rows =
     [\<lparr> monthly.month = ''NaN-NaN'', cpu_avg = Num 80, memory_avg = Num 0, network_avg = Num 0,
        power_avg = Num 0, cpu_growth = Num 0, memory_growth = Num 0, network_growth = Num 0 \<rparr>]"
  by (simp add: processedData_monthly_def unparseable_rows_def empty_row_def monthly_step_def
      Let_def sample_keys js_sort_def monthly_averages_def average_def push_value_def
      num_or_zero_def sample_fields sample_newDate_def sample_parseFloat_def inf_of_sign_def
      sample_ops sample_runtime_def [THEN arg_cong [where f = getFullYear], simplified])

text \<open>
  Claim C7, amended. A row whose timestamp field is missing or empty is assigned to no
  bucket: the aggregator's output is the one it gives on the rows with a truthy
  timestamp alone. Such a row still counts in the total row count of the whole-dataset
  statistics, which is the length of the input.
\<close>

theorem undated_rows_not_bucketed:
  assumes "data \<noteq> []"
  shows "processedData_monthly rt data = processedData_monthly rt (filter dated data)
       \<and> map_option totalInputs (calculateMetrics rt data) = Some (length data)"
proof -
  have "processedData_monthly rt data = processedData_monthly rt (filter dated data)"
  proof (cases "filter dated data = []")
    case True
    then have "foldl (monthly_step rt) [] data = []"
      using foldl_monthly_filter [of rt "[]" data] by simp
    then show ?thesis using True by (simp add: processedData_monthly_def js_sort_def)
  next
    case False
    then show ?thesis using assms by (simp add: processedData_monthly_def foldl_monthly_filter)
  qed
  moreover have "map_option totalInputs (calculateMetrics rt data) = Some (length data)"
    using assms by (simp add: calculateMetrics_def Let_def)
  ultimately show ?thesis by simp
qed

theorem undated_rows_not_bucketed_witness:
  "sample_rows \<noteq> []
   \<and> filter dated sample_rows =
       [empty_row(''timestamp'' := Str ''2025-01-15'', ''cpu_usage'' := Str ''80''),
        empty_row(''timestamp'' := Str ''2024-12-03'', ''cpu_usage'' := Number (Num 60)),
        empty_row(''timestamp'' := Str ''2025-01-20'')]
   \<and> processedData_monthly sample_runtime sample_rows =
       processedData_monthly sample_runtime (filter dated sample_rows)
   \<and> map_option totalInputs (calculateMetrics sample_runtime sample_rows) = Some 4"
proof -
  have n: "sample_rows \<noteq> []" by (simp add: sample_rows_def)
  have f: "filter dated sample_rows =
       [empty_row(''timestamp'' := Str ''2025-01-15'', ''cpu_usage'' := Str ''80''),
        empty_row(''timestamp'' := Str ''2024-12-03'', ''cpu_usage'' := Number (Num 60)),
        empty_row(''timestamp'' := Str ''2025-01-20'')]"
    by (simp add: sample_rows_def dated_def empty_row_def)
  have l: "length sample_rows = 4" by (simp add: sample_rows_def)
  show ?thesis using undated_rows_not_bucketed [OF n, of sample_runtime] n f l by simp
qed

section \<open>Properties of the daily chart data\<close>



lemma round2_zero: "nearest rt 0 = Num 0 \<Longrightarrow> round2 rt (Num 0) = Num 0"
  by simp







lemma daily_string_field_throws:
  "processedData_daily rt [empty_row(''cpu_usage'' := Str ''80'')] = Inl TypeError"
  by (simp add: processedData_daily_def daily_row_def Let_def and_then_def or_default_def)

section \<open>Properties of the capacity chart data\<close>








section \<open>Properties of ingestion and of empty input\<close>

text \<open>
  Claim C8. When the parse of an uploaded file reports at least one error, the promise
  of \<open>processFile\<close> is rejected with the first message, the file's status becomes an
  error status carrying that message and no rows, the loaded rows are unchanged, the
  load button is disabled, and \<open>handleLoadData\<close> changes nothing.
\<close>

theorem parse_errors_commit_nothing:
  assumes "errors \<noteq> []"
  shows "fst (processFile file_name (Completed rows errors) st) = Inl (hd errors)
       \<and> predictionFile (snd (processFile file_name (Completed rows errors) st)) =
           Some \<lparr> name = file_name, status = Error, progress = 0, error = Some (hd errors),
                  file_data = None \<rparr>
       \<and> predictionsData (snd (processFile file_name (Completed rows errors) st)) =
           predictionsData st
       \<and> \<not> canLoadData (snd (processFile file_name (Completed rows errors) st))
       \<and> handleLoadData rt (snd (processFile file_name (Completed rows errors) st)) =
           snd (processFile file_name (Completed rows errors) st)"
  using assms
  by (cases errors) (simp_all add: processFile_def Let_def handleLoadData_def canLoadData_def)

theorem parse_errors_commit_nothing_witness:
  "[''Too few fields'', ''Quoted field unterminated''] \<noteq> []
   \<and> fst (processFile ''predictions.csv''
            (Completed unparseable_rows [''Too few fields'', ''Quoted field unterminated''])
            sample_app) = Inl ''Too few fields''
   \<and> predictionsData (handleLoadData sample_runtime (snd (processFile ''predictions.csv''
            (Completed unparseable_rows [''Too few fields'', ''Quoted field unterminated''])
            sample_app))) = sample_rows"
  using parse_errors_commit_nothing
    [of "[''Too few fields'', ''Quoted field unterminated'']" "''predictions.csv''"
        unparseable_rows sample_app sample_runtime]
  by (simp add: sample_app_def)

text \<open>
  Claim C9. On the empty row sequence, which is what a file with a header only loads,
  every aggregation yields no bucket and the maintenance heuristic yields its output
  for no input, the empty task list; nothing is thrown.
\<close>

theorem empty_input_defaults:
  "processedData_monthly rt [] = []
   \<and> processedData_daily rt [] = Inr []
   \<and> processedData_capacity rt draws [] = Inr []
   \<and> calculateMetrics rt [] = None
   \<and> maintenanceTasks rt [] = []
   \<and> predictionsData (handleLoadData rt (snd (processFile file_name (Completed [] []) st))) = []"
  by (simp add: processedData_monthly_def processedData_daily_def processedData_capacity_def
      calculateMetrics_def maintenanceTasks_def processFile_def handleLoadData_def
      handleDataLoad_def Let_def)

theorem empty_input_defaults_witness:
  "processedData_monthly sample_runtime [] = []
   \<and> maintenanceTasks sample_runtime [] = []
   \<and> predictionsData (handleLoadData sample_runtime
        (snd (processFile ''header-only.csv'' (Completed [] []) sample_app))) = []"
  using empty_input_defaults [of sample_runtime draws_low "''header-only.csv''" sample_app]
  by simp

end
